theory Spec2Isabelle
  imports Main "HOL-Library.Sublist"
begin

section \<open>The export parser of wordpress-export-to-markdown\<close>

text \<open>
  The development follows \<^verbatim>\<open>src/parser.js\<close>. The file holds two variants of the
  parser one after the other. The first (lines 1 to 282) enriches event posts from a
  local \<^verbatim>\<open>events.json\<close>; the second (lines 283 to 573) fetches the event data over
  HTTP, one request per post. Functions of the second variant keep the names of the
  source; where the first variant differs, its function carries the suffix \<open>_v1\<close>.

  Strings are \<^typ>\<open>string\<close>; one \<^typ>\<open>char\<close> stands for one UTF-16 code unit below 256.
\<close>

subsection \<open>JavaScript values, exceptions and array helpers\<close>

text \<open>
  The values that reach a strict comparison, a truthiness test or a template literal
  in the parser: \<^verbatim>\<open>undefined\<close>, \<^verbatim>\<open>null\<close>, an integral number, a string.
\<close>

datatype jsval = JUndefined | JNull | JNum int | JStr string

text \<open>
  The exceptions the parser can meet: a \<^verbatim>\<open>TypeError\<close> (reading \<^verbatim>\<open>[0]\<close> or a member of
  \<^verbatim>\<open>undefined\<close>, an invalid URL), a \<^verbatim>\<open>URIError\<close> of \<^verbatim>\<open>decodeURIComponent\<close>, and the three
  ways a \<^verbatim>\<open>fetch\<close> is rejected: aborted, failed on the network, a body that is no JSON.
\<close>

datatype error = TypeError | URIError | AbortError | FetchError | SyntaxError

definition bind_res :: "error + 'a \<Rightarrow> ('a \<Rightarrow> error + 'b) \<Rightarrow> error + 'b" where
  "bind_res m f = (case m of Inl e \<Rightarrow> Inl e | Inr x \<Rightarrow> f x)"

text \<open>\<^verbatim>\<open>x[0]\<close> for a field \<^verbatim>\<open>x\<close> of an xml2js node: the field is absent (\<^verbatim>\<open>undefined\<close>)
  or an array whose first entry is read.\<close>

definition index0 :: "'a option \<Rightarrow> error + 'a" where
  "index0 x = (case x of None \<Rightarrow> Inl TypeError | Some v \<Rightarrow> Inr v)"

text \<open>\<^verbatim>\<open>Array.prototype.map\<close> and \<^verbatim>\<open>filter\<close> with a callback that may throw: the elements
  are visited from the left and the first exception ends the call.\<close>

fun map_res :: "('a \<Rightarrow> error + 'b) \<Rightarrow> 'a list \<Rightarrow> error + 'b list" where
  "map_res f [] = Inr []"
| "map_res f (x # xs) =
     (case f x of Inl e \<Rightarrow> Inl e
      | Inr y \<Rightarrow> (case map_res f xs of Inl e \<Rightarrow> Inl e | Inr ys \<Rightarrow> Inr (y # ys)))"

fun filter_res :: "('a \<Rightarrow> error + bool) \<Rightarrow> 'a list \<Rightarrow> error + 'a list" where
  "filter_res p [] = Inr []"
| "filter_res p (x # xs) =
     (case p x of Inl e \<Rightarrow> Inl e
      | Inr b \<Rightarrow> (case filter_res p xs of Inl e \<Rightarrow> Inl e
                  | Inr ys \<Rightarrow> Inr (if b then x # ys else ys)))"

text \<open>\<^verbatim>\<open>[...new Set(xs)]\<close>: a Set keeps its members in insertion order, and adding a
  member it already has changes nothing.\<close>

definition set_add :: "'a list \<Rightarrow> 'a \<Rightarrow> 'a list" where
  "set_add acc x = (if x \<in> set acc then acc else acc @ [x])"

definition new_Set :: "'a list \<Rightarrow> 'a list" where
  "new_Set xs = foldl set_add [] xs"

text \<open>The reading of "deduplicated, first-seen order" that \<^const>\<open>new_Set\<close> is compared with:
  keep an element, drop its later copies, go on.\<close>

fun first_seen :: "'a list \<Rightarrow> 'a list" where
  "first_seen [] = []"
| "first_seen (x # xs) = x # first_seen (filter (\<lambda>y. y \<noteq> x) xs)"

subsection \<open>The export as xml2js delivers it\<close>

text \<open>
  Every child element of an \<^verbatim>\<open>item\<close> is a field holding an array; a field is \<^const>\<open>None\<close>
  when the item has no such element, else it holds the first entry (the only one the
  parser reads), or the whole array for \<^verbatim>\<open>postmeta\<close> and \<^verbatim>\<open>category\<close>.
\<close>

record postmeta =
  meta_key :: "string option"
  meta_value :: "string option"

text \<open>The attributes \<^verbatim>\<open>$\<close> of a \<^verbatim>\<open>category\<close> element; the element has none when it
  carries no attribute at all.\<close>

record category_attrs =
  domain :: "string option"
  nicename :: "string option"

record item =
  post_type :: "string option"
  status :: "string option"
  post_id :: "string option"
  post_name :: "string option"
  postmeta :: "postmeta list option"
  title :: "string option"
  pubDate :: "string option"
  category :: "category_attrs option list option"
  creator :: "string option"
  encoded :: "string option"
  link :: "string option"
  attachment_url :: "string option"
  post_parent :: "string option"

text \<open>
  \<^verbatim>\<open>data.rss.channel[0].item\<close>: the items of the export, in document order. xml2js gives a
  channel without \<^verbatim>\<open>item\<close> elements no \<^verbatim>\<open>item\<close> member at all, never an empty array: the empty
  list stands for the missing member, on which \<^verbatim>\<open>map\<close> and \<^verbatim>\<open>filter\<close> cannot be called.
\<close>

type_synonym export = "item list"

definition items_of :: "export \<Rightarrow> error + item list" where
  "items_of data = (if data = [] then Inl TypeError else Inr data)"

record config =
  includeOtherTypes :: bool
  saveAttachedImages :: bool
  saveScrapedImages :: bool

subsection \<open>getPostTypes and getItemsOfType\<close>

definition excluded_types :: "string list" where
  "excluded_types =
     [''attachment'', ''revision'', ''nav_menu_item'', ''custom_css'', ''customize_changeset'']"

definition getPostTypes :: "export \<Rightarrow> config \<Rightarrow> error + string list" where
  "getPostTypes data config =
     (if includeOtherTypes config then
        bind_res (items_of data) (\<lambda>items.
        bind_res (map_res (\<lambda>item. index0 (post_type item)) items)
          (\<lambda>types. Inr (new_Set (filter (\<lambda>type. type \<notin> set excluded_types) types))))
      else Inr [''post''])"

definition getItemsOfType :: "export \<Rightarrow> string \<Rightarrow> error + item list" where
  "getItemsOfType data type =
     bind_res (items_of data)
       (filter_res (\<lambda>item. bind_res (index0 (post_type item)) (\<lambda>t. Inr (t = type))))"

subsection \<open>Posts and images\<close>

text \<open>
  The \<^verbatim>\<open>meta\<close> object of a post. Its \<^verbatim>\<open>id\<close> and \<^verbatim>\<open>type\<close> are the fields \<open>meta_id\<close> and
  \<open>meta_type\<close> here. \<^verbatim>\<open>coverImageId\<close> is whatever \<^verbatim>\<open>getPostCoverImageId\<close> returned.
\<close>

record meta =
  meta_id :: string
  slug :: string
  coverImageId :: jsval
  meta_type :: string
  imageUrls :: "string list"

text \<open>The five keys that the enrichment of an event post adds to its frontmatter.\<close>

record enrichment =
  fm_start_datetime :: jsval
  fm_end_datetime :: jsval
  fm_venue :: jsval
  fm_address :: string
  fm_ical_source_url :: jsval

text \<open>
  The frontmatter of a post, each key with the prefix \<open>fm_\<close>. \<open>fm_event\<close> is \<^const>\<open>None\<close>
  while the five event keys are absent, \<open>fm_coverImage\<close> while \<^verbatim>\<open>coverImage\<close> is.
\<close>

record frontmatter =
  fm_title :: string
  fm_date :: jsval
  fm_categories :: "string list"
  fm_tags :: "string list"
  fm_wp_id :: string
  fm_wp_type :: string
  fm_wp_slug :: string
  fm_creator :: string
  fm_event :: "enrichment option"
  fm_coverImage :: "string option"

record post =
  meta :: meta
  frontmatter :: frontmatter
  content :: string

text \<open>An image: \<^verbatim>\<open>id\<close> is the attachment's id, or the number \<open>-1\<close> of a scraped image.\<close>

record asset =
  asset_id :: jsval
  postId :: string
  url :: string

subsection \<open>mergeImagesIntoPosts\<close>

text \<open>
  Modelled from the spec: \<^verbatim>\<open>shared.getFilenameFromUrl\<close> (\<^verbatim>\<open>src/shared.js\<close> is not among the
  sources), "the filename portion of the asset URL (path segment after the last
  \<^verbatim>\<open>/\<close>)".
\<close>

definition getFilenameFromUrl :: "string \<Rightarrow> string" where
  "getFilenameFromUrl u = rev (takeWhile (\<lambda>c. c \<noteq> CHR ''/'') (rev u))"

text \<open>The body of the inner \<^verbatim>\<open>forEach\<close> (lines 515 to 530): one image against one post.\<close>

definition merge_image :: "asset \<Rightarrow> post \<Rightarrow> post" where
  "merge_image img p =
     (let shouldAttach = (if postId img = meta_id (meta p) then True else False);
          cover = (asset_id img = coverImageId (meta p));
          shouldAttach = (if cover then True else shouldAttach);
          p = (if cover
               then p\<lparr>frontmatter :=
                      (frontmatter p)\<lparr>fm_coverImage := Some (getFilenameFromUrl (url img))\<rparr>\<rparr>
               else p)
      in if shouldAttach \<and> url img \<notin> set (imageUrls (meta p))
         then p\<lparr>meta := (meta p)\<lparr>imageUrls := imageUrls (meta p) @ [url img]\<rparr>\<rparr>
         else p)"

text \<open>The two loops: every image in turn is run against every post, and the posts are
  updated in place.\<close>

definition mergeImagesIntoPosts :: "asset list \<Rightarrow> post list \<Rightarrow> post list" where
  "mergeImagesIntoPosts images posts =
     foldl (\<lambda>ps img. map (merge_image img) ps) posts images"

text \<open>The two rules of the correlator, in the words of the specification.\<close>

definition rule_A :: "asset \<Rightarrow> post \<Rightarrow> bool" where
  "rule_A img p \<longleftrightarrow> postId img = meta_id (meta p)"

definition rule_B :: "asset \<Rightarrow> post \<Rightarrow> bool" where
  "rule_B img p \<longleftrightarrow> asset_id img = coverImageId (meta p)"

text \<open>What the two loops do to a single post: the images are merged into it one by one.\<close>

definition merge_all :: "asset list \<Rightarrow> post \<Rightarrow> post" where
  "merge_all images p = foldl (\<lambda>q img. merge_image img q) p images"

subsection \<open>What the parser is given\<close>

text \<open>\<^verbatim>\<open>settings.js\<close> is not among the sources; its three values are parameters.
  \<^verbatim>\<open>custom_date_formatting\<close> is a string, truthy iff it is not empty.\<close>

record settings =
  custom_date_formatting :: string
  include_time_with_date :: bool
  filter_categories :: "string list"

text \<open>
  The \<^verbatim>\<open>event_data\<close> object of the events service (and of \<^verbatim>\<open>events.json\<close>). A member
  that is missing is \<^const>\<open>JUndefined\<close>.
\<close>

record event_data =
  start_datetime :: jsval
  end_datetime :: jsval
  venue :: jsval
  province :: jsval
  city :: jsval
  address :: jsval
  postal_code :: jsval
  ical_source_url :: jsval

text \<open>
  The value the parser holds for one event: a falsy value (\<^verbatim>\<open>undefined\<close> when a response
  is not OK or \<^verbatim>\<open>events.json\<close> has no such key), or a truthy one whose \<^verbatim>\<open>event_data\<close>
  member is an object or is missing.
\<close>

datatype event_metadata = Falsy_metadata | Metadata "event_data option"

text \<open>
  How a request ends, next to the time it takes in milliseconds: the network fails,
  the status is not OK, the body is not JSON, or the body is parsed.
\<close>

datatype fetch_outcome = NetworkFailure | HttpNotOk | InvalidJson | Body event_metadata

text \<open>
  The libraries and collaborators of the parser, as parameters: \<^verbatim>\<open>decodeURIComponent\<close>,
  four functions of luxon over its \<^verbatim>\<open>DateTime\<close> values \<open>'dt\<close> (\<^verbatim>\<open>fromRFC2822\<close> takes the text
  and the \<^verbatim>\<open>zone\<close> of its options), \<^verbatim>\<open>translator.getPostContent\<close>
  (\<^verbatim>\<open>translator.js\<close> is not among the sources), \<^verbatim>\<open>new URL(input, base).href\<close>, \<^verbatim>\<open>fetch\<close> by
  the URL requested, and the settings.
\<close>

record 'dt env =
  decodeURIComponent :: "string \<Rightarrow> error + string"
  fromRFC2822 :: "string \<Rightarrow> string \<Rightarrow> 'dt"
  toFormat :: "'dt \<Rightarrow> string \<Rightarrow> jsval"
  toISO :: "'dt \<Rightarrow> jsval"
  toISODate :: "'dt \<Rightarrow> jsval"
  getPostContent :: "item \<Rightarrow> config \<Rightarrow> error + string"
  new_URL :: "string \<Rightarrow> string \<Rightarrow> error + string"
  fetch :: "string \<Rightarrow> nat \<times> fetch_outcome"
  settings :: settings

subsection \<open>The field accessors\<close>

definition getPostId :: "item \<Rightarrow> error + string" where
  "getPostId p = index0 (post_id p)"

definition getPostSlug :: "'dt env \<Rightarrow> item \<Rightarrow> error + string" where
  "getPostSlug env p = bind_res (index0 (post_name p)) (decodeURIComponent env)"

text \<open>\<^verbatim>\<open>Array.prototype.find\<close> with a callback that may throw.\<close>

fun find_res :: "('a \<Rightarrow> error + bool) \<Rightarrow> 'a list \<Rightarrow> error + 'a option" where
  "find_res p [] = Inr None"
| "find_res p (x # xs) =
     (case p x of Inl e \<Rightarrow> Inl e | Inr b \<Rightarrow> if b then Inr (Some x) else find_res p xs)"

definition getPostCoverImageId :: "item \<Rightarrow> error + jsval" where
  "getPostCoverImageId p =
     (case postmeta p of
        None \<Rightarrow> Inr JUndefined
      | Some entries \<Rightarrow>
          bind_res
            (find_res (\<lambda>pm. bind_res (index0 (meta_key pm)) (\<lambda>k. Inr (k = ''_thumbnail_id'')))
               entries)
            (\<lambda>found. case found of
                 None \<Rightarrow> Inr JUndefined
               | Some pm \<Rightarrow> bind_res (index0 (meta_value pm)) (\<lambda>v. Inr (JStr v))))"

definition getPostTitle :: "item \<Rightarrow> error + string" where
  "getPostTitle p = index0 (title p)"

definition getPostDate :: "'dt env \<Rightarrow> item \<Rightarrow> error + jsval" where
  "getPostDate env p =
     bind_res (index0 (pubDate p))
       (\<lambda>d. let dateTime = fromRFC2822 env d ''utc'' in
          if custom_date_formatting (settings env) \<noteq> [] then
            Inr (toFormat env dateTime (custom_date_formatting (settings env)))
          else if include_time_with_date (settings env) then Inr (toISO env dateTime)
          else Inr (toISODate env dateTime))"

text \<open>\<^verbatim>\<open>decodeURIComponent(attributes.nicename)\<close>: a missing attribute is \<^verbatim>\<open>undefined\<close>, which
  the function reads as the string \<^verbatim>\<open>undefined\<close>.\<close>

definition processCategoryTags :: "'dt env \<Rightarrow> item \<Rightarrow> string \<Rightarrow> error + string list" where
  "processCategoryTags env p wanted =
     (case category p of
        None \<Rightarrow> Inr []
      | Some cats \<Rightarrow>
          bind_res
            (filter_res (\<lambda>c. case c of None \<Rightarrow> Inl TypeError
                              | Some attributes \<Rightarrow> Inr (domain attributes = Some wanted)) cats)
            (map_res (\<lambda>c. case c of None \<Rightarrow> Inl TypeError
                          | Some attributes \<Rightarrow>
                              decodeURIComponent env
                                (case nicename attributes of None \<Rightarrow> ''undefined''
                                 | Some n \<Rightarrow> n))))"

definition getCategories :: "'dt env \<Rightarrow> item \<Rightarrow> error + string list" where
  "getCategories env p =
     bind_res (processCategoryTags env p ''category'')
       (\<lambda>categories. Inr (filter (\<lambda>c. c \<notin> set (filter_categories (settings env))) categories))"

definition getTags :: "'dt env \<Rightarrow> item \<Rightarrow> error + string list" where
  "getTags env p = processCategoryTags env p ''post_tag''"

definition getPostCreator :: "item \<Rightarrow> error + string" where
  "getPostCreator p = index0 (creator p)"

subsection \<open>getAddress\<close>

text \<open>A template literal turns a value into a string.\<close>

function show_nat :: "nat \<Rightarrow> string" where
  "show_nat n =
     (if n < 10 then [''0123456789'' ! n]
      else show_nat (n div 10) @ [''0123456789'' ! (n mod 10)])"
  by pat_completeness auto
termination
  by (relation "measure id") auto

declare show_nat.simps [simp del]

fun to_String :: "jsval \<Rightarrow> string" where
  "to_String JUndefined = ''undefined''"
| "to_String JNull = ''null''"
| "to_String (JNum n) = (if n < 0 then ''-'' @ show_nat (nat (- n)) else show_nat (nat n))"
| "to_String (JStr s) = s"

text \<open>Reading \<^verbatim>\<open>eventMetadata.event_data.x\<close> throws unless \<^verbatim>\<open>event_data\<close> is there.\<close>

definition the_event_data :: "event_metadata \<Rightarrow> error + event_data" where
  "the_event_data md =
     (case md of Falsy_metadata \<Rightarrow> Inl TypeError
      | Metadata None \<Rightarrow> Inl TypeError
      | Metadata (Some ed) \<Rightarrow> Inr ed)"

text \<open>Lines 561 to 567, the variant that fetches: the four components in a template
  literal.\<close>

definition getAddress :: "event_metadata \<Rightarrow> error + string" where
  "getAddress eventMetadata =
     bind_res (the_event_data eventMetadata)
       (\<lambda>ed. Inr (to_String (address ed) @ '', '' @ to_String (city ed) @ '', '' @
                  to_String (province ed) @ '', '' @ to_String (postal_code ed)))"

text \<open>White space of \<^verbatim>\<open>String.prototype.trim\<close> among the code units below 256: tab, line
  feed, vertical tab, form feed, carriage return, space, no-break space.\<close>

definition js_whitespace :: "char \<Rightarrow> bool" where
  "js_whitespace c \<longleftrightarrow>
     c \<in> set [CHR 0x09, CHR 0x0A, CHR 0x0B, CHR 0x0C, CHR 0x0D, CHR 0x20, CHR 0xA0]"

definition trim :: "string \<Rightarrow> string" where
  "trim s = rev (dropWhile js_whitespace (rev (dropWhile js_whitespace s)))"

definition truthy :: "jsval \<Rightarrow> bool" where
  "truthy v = (case v of JUndefined \<Rightarrow> False | JNull \<Rightarrow> False | JNum n \<Rightarrow> n \<noteq> 0
               | JStr s \<Rightarrow> s \<noteq> [])"

text \<open>\<^verbatim>\<open>component && component.trim() !== ''\<close>; a number has no \<^verbatim>\<open>trim\<close>.\<close>

definition valid_component :: "jsval \<Rightarrow> error + bool" where
  "valid_component component =
     (if \<not> truthy component then Inr False
      else case component of JStr s \<Rightarrow> Inr (trim s \<noteq> []) | _ \<Rightarrow> Inl TypeError)"

fun join :: "string \<Rightarrow> string list \<Rightarrow> string" where
  "join sep [] = []"
| "join sep [x] = x"
| "join sep (x # y # ys) = x @ sep @ join sep (y # ys)"

text \<open>Lines 266 to 276, the variant that reads \<^verbatim>\<open>events.json\<close>: the components that pass
  the filter, joined.\<close>

definition getAddress_v1 :: "event_metadata \<Rightarrow> error + string" where
  "getAddress_v1 eventMetadata =
     bind_res (the_event_data eventMetadata)
       (\<lambda>ed. let addressComponents = [address ed, city ed, province ed, postal_code ed] in
          bind_res (filter_res valid_component addressComponents)
            (\<lambda>validComponents. Inr (join '', '' (map to_String validComponents))))"

text \<open>
  The strict composition in the words of the specification: the components joined
  with \<^verbatim>\<open>", "\<close>, blank ones omitted. \<open>nonblank\<close> keeps a component that is a string with
  something other than white space in it.
\<close>

definition nonblank :: "jsval \<Rightarrow> string list" where
  "nonblank component =
     (case component of JStr s \<Rightarrow> if trim s \<noteq> [] then [s] else [] | _ \<Rightarrow> [])"

definition strict_address :: "event_data \<Rightarrow> string" where
  "strict_address ed =
     join '', '' (concat (map nonblank [address ed, city ed, province ed, postal_code ed]))"

subsection \<open>collectPosts, the variant that fetches (lines 336 to 418)\<close>

text \<open>The two object literals of lines 352 to 369, their members evaluated in order.\<close>

definition make_meta :: "'dt env \<Rightarrow> string \<Rightarrow> item \<Rightarrow> error + meta" where
  "make_meta env postType p =
     bind_res (getPostId p) (\<lambda>i.
     bind_res (getPostSlug env p) (\<lambda>s.
     bind_res (getPostCoverImageId p) (\<lambda>c.
       Inr \<lparr>meta_id = i, slug = s, coverImageId = c, meta_type = postType, imageUrls = []\<rparr>)))"

definition make_frontmatter :: "'dt env \<Rightarrow> string \<Rightarrow> item \<Rightarrow> error + frontmatter" where
  "make_frontmatter env postType p =
     bind_res (getPostTitle p) (\<lambda>t.
     bind_res (getPostDate env p) (\<lambda>d.
     bind_res (getCategories env p) (\<lambda>cs.
     bind_res (getTags env p) (\<lambda>ts.
     bind_res (getPostId p) (\<lambda>i.
     bind_res (getPostSlug env p) (\<lambda>s.
     bind_res (getPostCreator p) (\<lambda>c.
       Inr \<lparr>fm_title = t, fm_date = d, fm_categories = cs, fm_tags = ts, fm_wp_id = i,
            fm_wp_type = postType, fm_wp_slug = s, fm_creator = c, fm_event = None,
            fm_coverImage = None\<rparr>)))))))"

definition extract_post :: "'dt env \<Rightarrow> string \<Rightarrow> item \<Rightarrow> error + meta \<times> frontmatter" where
  "extract_post env postType p =
     bind_res (make_meta env postType p) (\<lambda>m.
     bind_res (make_frontmatter env postType p) (\<lambda>f. Inr (m, f)))"

text \<open>The \<^verbatim>\<open>return\<close> statements of the callback: the post with its translated content.\<close>

definition finish :: "'dt env \<Rightarrow> config \<Rightarrow> item \<Rightarrow> meta \<Rightarrow> frontmatter \<Rightarrow> error + post" where
  "finish env config p m f =
     bind_res (getPostContent env p config)
       (\<lambda>c. Inr \<lparr>meta = m, frontmatter = f, content = c\<rparr>)"

text \<open>Lines 389 to 396: the frontmatter with the five event keys.\<close>

definition enrich :: "event_metadata \<Rightarrow> frontmatter \<Rightarrow> error + frontmatter" where
  "enrich eventMetadata f =
     bind_res (the_event_data eventMetadata) (\<lambda>ed.
     bind_res (getAddress eventMetadata) (\<lambda>a.
       Inr (f\<lparr>fm_event := Some \<lparr>fm_start_datetime = start_datetime ed,
              fm_end_datetime = end_datetime ed, fm_venue = venue ed, fm_address = a,
              fm_ical_source_url = ical_source_url ed\<rparr>\<rparr>)))"

text \<open>\<^verbatim>\<open>!eventMetadata || !eventMetadata.event_data\<close> is false.\<close>

definition has_event_data :: "event_metadata \<Rightarrow> bool" where
  "has_event_data eventMetadata =
     (case eventMetadata of Metadata (Some ed) \<Rightarrow> True | _ \<Rightarrow> False)"

text \<open>
  Time is virtual and counted in milliseconds; running code takes none. \<^verbatim>\<open>delay(ms)\<close>
  called at \<open>now\<close> gives a promise that resolves at \<open>now + ms\<close>.
\<close>

definition delay :: "nat \<Rightarrow> nat \<Rightarrow> nat" where
  "delay now ms = now + ms"

text \<open>
  \<^verbatim>\<open>getEventMetadata(id)\<close> called at \<open>now\<close>: when its promise settles, and how. The request
  is aborted when the timer of 10000 ms fires before the response is there. A response
  that is not OK resolves the promise with \<^verbatim>\<open>undefined\<close>; every rejection of the chain is
  passed on by \<^verbatim>\<open>reject(err)\<close>.
\<close>

definition getEventMetadata :: "'dt env \<Rightarrow> string \<Rightarrow> nat \<Rightarrow> nat \<times> (error + event_metadata)" where
  "getEventMetadata env i now =
     (case fetch env (''https://dssg.fas.harvard.edu/wp-json/wp/v2/events/'' @ i) of
        (latency, response) \<Rightarrow>
          if 10000 \<le> latency then (now + 10000, Inl AbortError)
          else (now + latency,
                case response of
                  NetworkFailure \<Rightarrow> Inl FetchError
                | HttpNotOk \<Rightarrow> Inr Falsy_metadata
                | InvalidJson \<Rightarrow> Inl SyntaxError
                | Body data \<Rightarrow> Inr data))"

text \<open>
  The promise that the \<^verbatim>\<open>async\<close> callback of \<^verbatim>\<open>postsForType.map\<close> returns for one post:
  when the work on the post begins, when its request is sent (if one is), when the
  promise settles, and with what.
\<close>

record task =
  started_at :: nat
  request_at :: "nat option"
  settled_at :: nat
  outcome :: "error + post"

text \<open>
  The callback (lines 344 to 403), called at \<open>now\<close> for the post at \<open>index\<close>. The id
  passed to \<^verbatim>\<open>getEventMetadata\<close> is \<^verbatim>\<open>getPostId(post)\<close>, the value \<^verbatim>\<open>meta.id\<close> was made from.
\<close>

definition processPost :: "'dt env \<Rightarrow> config \<Rightarrow> string \<Rightarrow> nat \<Rightarrow> nat \<Rightarrow> item \<Rightarrow> task" where
  "processPost env config postType now index p =
     (let start = (if index \<noteq> 0 then delay now 5000 else now) in
      case extract_post env postType p of
        Inl e \<Rightarrow> \<lparr>started_at = start, request_at = None, settled_at = start, outcome = Inl e\<rparr>
      | Inr (m, f) \<Rightarrow>
          if postType \<noteq> ''ai1ec_event'' then
            \<lparr>started_at = start, request_at = None, settled_at = start,
             outcome = finish env config p m f\<rparr>
          else
            (case getEventMetadata env (meta_id m) start of
               (t, Inl e) \<Rightarrow>
                 \<lparr>started_at = start, request_at = Some start, settled_at = t,
                  outcome = Inl e\<rparr>
             | (t, Inr eventMetadata) \<Rightarrow>
                 \<lparr>started_at = start, request_at = Some start, settled_at = t,
                  outcome =
                    (if \<not> has_event_data eventMetadata then finish env config p m f
                     else bind_res (enrich eventMetadata f) (finish env config p m))\<rparr>))"

text \<open>\<^verbatim>\<open>postsForType.map(async (post, index) => ...)\<close>: every callback is called at the
  same instant, none waits for another.\<close>

definition postsPromises :: "'dt env \<Rightarrow> config \<Rightarrow> string \<Rightarrow> nat \<Rightarrow> item list \<Rightarrow> task list" where
  "postsPromises env config postType now postsForType =
     map (\<lambda>(index, p). processPost env config postType now index p)
       (enumerate 0 postsForType)"

text \<open>
  \<^verbatim>\<open>Promise.all\<close>: rejected as soon as one promise is, with its error (of two rejected
  at the same instant the one earlier in the array is taken); else fulfilled, when the
  last promise is, with the values in the order of the array.
\<close>

fun first_rejection :: "task list \<Rightarrow> (nat \<times> error) option" where
  "first_rejection [] = None"
| "first_rejection (t # ts) =
     (case outcome t of
        Inr v \<Rightarrow> first_rejection ts
      | Inl e \<Rightarrow>
          (case first_rejection ts of
             None \<Rightarrow> Some (settled_at t, e)
           | Some (t', e') \<Rightarrow>
               if settled_at t \<le> t' then Some (settled_at t, e) else Some (t', e')))"

definition promise_all :: "nat \<Rightarrow> task list \<Rightarrow> nat \<times> (error + post list)" where
  "promise_all now tasks =
     (case first_rejection tasks of
        Some (t, e) \<Rightarrow> (t, Inl e)
      | None \<Rightarrow> (foldl max now (map settled_at tasks), map_res outcome tasks))"

text \<open>The filter of line 343.\<close>

definition not_trash_or_draft :: "item \<Rightarrow> error + bool" where
  "not_trash_or_draft p =
     bind_res (index0 (status p)) (\<lambda>s. Inr (s \<noteq> ''trash'' \<and> s \<noteq> ''draft''))"

text \<open>
  The loop over the post types, entered at \<open>now\<close> with the posts collected so far. It
  returns the time at which \<^verbatim>\<open>collectPosts\<close> settles and its result. Every resolved value
  is a post object, so \<^verbatim>\<open>filter(Boolean)\<close> keeps all of them.
\<close>

fun collectPosts_from ::
  "'dt env \<Rightarrow> config \<Rightarrow> export \<Rightarrow> nat \<Rightarrow> string list \<Rightarrow> post list \<Rightarrow> nat \<times> (error + post list)"
where
  "collectPosts_from env config data now [] allPosts = (now, Inr allPosts)"
| "collectPosts_from env config data now (postType # rest) allPosts =
     (case bind_res (getItemsOfType data postType) (filter_res not_trash_or_draft) of
        Inl e \<Rightarrow> (now, Inl e)
      | Inr postsForType \<Rightarrow>
          (case promise_all now (postsPromises env config postType now postsForType) of
             (t, Inl e) \<Rightarrow> (t, Inl e)
           | (t, Inr resolvedPostsForType) \<Rightarrow>
               collectPosts_from env config data t rest (allPosts @ resolvedPostsForType)))"

definition collectPosts :: "'dt env \<Rightarrow> export \<Rightarrow> string list \<Rightarrow> config \<Rightarrow> error + post list" where
  "collectPosts env data postTypes config =
     snd (collectPosts_from env config data 0 postTypes [])"

subsection \<open>collectPosts, the variant that reads events.json (lines 51 to 136)\<close>

text \<open>Lines 87 to 94. \<^verbatim>\<open>eventData.event_data.start_datetime\<close> throws when the entry has
  no \<^verbatim>\<open>event_data\<close>.\<close>

definition enrich_v1 :: "event_metadata \<Rightarrow> frontmatter \<Rightarrow> error + frontmatter" where
  "enrich_v1 eventData f =
     bind_res (the_event_data eventData) (\<lambda>ed.
     bind_res (getAddress_v1 eventData) (\<lambda>a.
       Inr (f\<lparr>fm_event := Some \<lparr>fm_start_datetime = start_datetime ed,
              fm_end_datetime = end_datetime ed, fm_venue = venue ed, fm_address = a,
              fm_ical_source_url = ical_source_url ed\<rparr>\<rparr>)))"

text \<open>The callback of \<^verbatim>\<open>map\<close> (lines 63 to 104); \<open>eventsData\<close> is the content of
  \<^verbatim>\<open>events.json\<close>, read by key.\<close>

definition processPost_v1 ::
  "'dt env \<Rightarrow> (string \<Rightarrow> event_metadata) \<Rightarrow> config \<Rightarrow> string \<Rightarrow> item \<Rightarrow> error + post"
where
  "processPost_v1 env eventsData config postType p =
     bind_res (extract_post env postType p) (\<lambda>(m, f).
     bind_res
       (if postType = ''ai1ec_event'' then
          (let eventData = eventsData (meta_id m) in
           if eventData \<noteq> Falsy_metadata then enrich_v1 eventData f else Inr f)
        else Inr f)
       (finish env config p m))"

definition collectPosts_v1 ::
  "'dt env \<Rightarrow> (string \<Rightarrow> event_metadata) \<Rightarrow> export \<Rightarrow> string list \<Rightarrow> config \<Rightarrow> error + post list"
where
  "collectPosts_v1 env eventsData data postTypes config =
     bind_res
       (map_res (\<lambda>postType.
          bind_res (getItemsOfType data postType) (\<lambda>items.
          bind_res (filter_res not_trash_or_draft items)
            (map_res (processPost_v1 env eventsData config postType)))) postTypes)
       (\<lambda>postsForTypes. Inr (concat postsForTypes))"

subsection \<open>Regular expressions\<close>

text \<open>Letters of a pattern with the flag \<^verbatim>\<open>i\<close> match in either case. The patterns of
  the parser have ASCII letters only, so folding A to Z is enough.\<close>

definition to_lower :: "char \<Rightarrow> char" where
  "to_lower c =
     (case map_of (zip ''ABCDEFGHIJKLMNOPQRSTUVWXYZ'' ''abcdefghijklmnopqrstuvwxyz'') c of
        Some l \<Rightarrow> l | None \<Rightarrow> c)"

text \<open>A literal at the head of the input, case folded: what is left of the input.\<close>

fun strip_ci :: "string \<Rightarrow> string \<Rightarrow> string option" where
  "strip_ci [] s = Some s"
| "strip_ci (w # ws) [] = None"
| "strip_ci (w # ws) (c # cs) = (if to_lower c = to_lower w then strip_ci ws cs else None)"

text \<open>
  The pieces a pattern of the parser is made of: a literal, an alternation of
  literals, a greedy \<^verbatim>\<open>*\<close> and a lazy \<^verbatim>\<open>+?\<close> over a character class, and the two ends of
  the capturing group.
\<close>

datatype atom =
  Lit string
| Alts "string list"
| Greedy_star "char \<Rightarrow> bool"
| Lazy_plus "char \<Rightarrow> bool"
| Open_group
| Close_group

text \<open>
  The backtracking matcher, anchored at the head of the input. It returns the input as
  it stood at the opening and at the closing of the group, and what is left after the
  match. A greedy star takes a character first and gives it back only if the rest
  cannot match; a lazy plus takes one character, tries the rest, and takes another
  only if the rest cannot match; alternatives are tried from the left.
\<close>

text \<open>The measure of a pattern that the matcher walks down: its atoms, an alternation
  counted with its alternatives.\<close>

fun atom_weight :: "atom \<Rightarrow> nat" where
  "atom_weight (Alts ws) = Suc (length ws)"
| "atom_weight a = 1"

function (sequential) rx :: "atom list \<Rightarrow> string \<Rightarrow> (string \<times> string \<times> string) option" where
  "rx [] s = Some (s, s, s)"
| "rx (Lit w # as) s = (case strip_ci w s of None \<Rightarrow> None | Some r \<Rightarrow> rx as r)"
| "rx (Alts [] # as) s = None"
| "rx (Alts (w # ws) # as) s =
     (case (case strip_ci w s of None \<Rightarrow> None | Some r \<Rightarrow> rx as r) of
        Some m \<Rightarrow> Some m
      | None \<Rightarrow> rx (Alts ws # as) s)"
| "rx (Greedy_star cls # as) [] = rx as []"
| "rx (Greedy_star cls # as) (c # cs) =
     (if cls c then
        (case rx (Greedy_star cls # as) cs of Some m \<Rightarrow> Some m | None \<Rightarrow> rx as (c # cs))
      else rx as (c # cs))"
| "rx (Lazy_plus cls # as) [] = None"
| "rx (Lazy_plus cls # as) (c # cs) =
     (if cls c then
        (case rx as cs of Some m \<Rightarrow> Some m | None \<Rightarrow> rx (Lazy_plus cls # as) cs)
      else None)"
| "rx (Open_group # as) s = (case rx as s of None \<Rightarrow> None | Some (a, b, r) \<Rightarrow> Some (s, b, r))"
| "rx (Close_group # as) s = (case rx as s of None \<Rightarrow> None | Some (a, b, r) \<Rightarrow> Some (a, s, r))"
  by pat_completeness auto
termination
  by (relation "inv_image (less_than <*lex*> less_than)
        (\<lambda>(pat, s). (sum_list (map atom_weight pat), length s))") auto

text \<open>
  \<^verbatim>\<open>[...s.matchAll(pattern)]\<close> for a pattern with the flag \<^verbatim>\<open>g\<close> that matches no empty
  string: the captures of the group. A match is tried at every position from the left;
  after a match the search goes on where the match ended, so the characters of the
  match (counted by the first argument) are skipped.
\<close>

fun scan :: "atom list \<Rightarrow> nat \<Rightarrow> string \<Rightarrow> string list" where
  "scan pat k [] = []"
| "scan pat (Suc k) (c # cs) = scan pat k cs"
| "scan pat 0 (c # cs) =
     (case rx pat (c # cs) of
        None \<Rightarrow> scan pat 0 cs
      | Some (a, b, r) \<Rightarrow> take (length a - length b) a # scan pat (length cs - length r) cs)"

text \<open>The pattern of line 495,
  \<^verbatim>\<open>/<img[^>]*src="(.+?\.(?:gif|jpe?g|png))"[^>]*>/gi\<close>. The dot matches all but the line
  terminators; \<^verbatim>\<open>jpe?g\<close> tries \<^verbatim>\<open>jpeg\<close> before \<^verbatim>\<open>jpg\<close>.\<close>

definition img_pattern :: "atom list" where
  \<open>img_pattern =
     [Lit ''<img'', Greedy_star (\<lambda>c. c \<noteq> CHR ''>''), Lit ''src="'', Open_group,
      Lazy_plus (\<lambda>c. c \<noteq> CHR 0x0A \<and> c \<noteq> CHR 0x0D), Lit ''.'',
      Alts [''gif'', ''jpeg'', ''jpg'', ''png''], Close_group, Lit ''"'',
      Greedy_star (\<lambda>c. c \<noteq> CHR ''>''), Lit ''>'']\<close>

definition matchAll_img :: "string \<Rightarrow> string list" where
  "matchAll_img postContent = scan img_pattern 0 postContent"

text \<open>The test of line 476, \<^verbatim>\<open>/\.(gif|jpe?g|png)$/i\<close>: the string ends in one of the four
  extensions.\<close>

definition ends_with_ci :: "string \<Rightarrow> string \<Rightarrow> bool" where
  "ends_with_ci w s \<longleftrightarrow>
     length w \<le> length s \<and> map to_lower (drop (length s - length w) s) = map to_lower w"

definition test_image_extension :: "string \<Rightarrow> bool" where
  "test_image_extension s \<longleftrightarrow>
     list_ex (\<lambda>w. ends_with_ci w s) [''.gif'', ''.jpeg'', ''.jpg'', ''.png'']"

subsection \<open>collectAttachedImages and collectScrapedImages\<close>

definition collectAttachedImages :: "export \<Rightarrow> error + asset list" where
  "collectAttachedImages data =
     bind_res (getItemsOfType data ''attachment'') (\<lambda>attachments.
     bind_res
       (filter_res (\<lambda>attachment. bind_res (index0 (attachment_url attachment))
          (\<lambda>u. Inr (test_image_extension u))) attachments)
       (map_res (\<lambda>attachment.
          bind_res (index0 (post_id attachment)) (\<lambda>i.
          bind_res (index0 (post_parent attachment)) (\<lambda>parent.
          bind_res (index0 (attachment_url attachment)) (\<lambda>u.
            Inr \<lparr>asset_id = JStr i, postId = parent, url = u\<rparr>))))))"

text \<open>The body of the inner \<^verbatim>\<open>forEach\<close> of lines 490 to 505: the images of one post.\<close>

definition scrape_post :: "'dt env \<Rightarrow> item \<Rightarrow> error + asset list" where
  "scrape_post env p =
     bind_res (index0 (post_id p)) (\<lambda>postId.
     bind_res (index0 (encoded p)) (\<lambda>postContent.
     bind_res (index0 (link p)) (\<lambda>postLink.
       map_res (\<lambda>src. bind_res (new_URL env src postLink)
                  (\<lambda>u. Inr \<lparr>asset_id = JNum (- 1), postId = postId, url = u\<rparr>))
         (matchAll_img postContent))))"

definition collectScrapedImages :: "'dt env \<Rightarrow> export \<Rightarrow> string list \<Rightarrow> error + asset list" where
  "collectScrapedImages env data postTypes =
     bind_res
       (map_res (\<lambda>postType. bind_res (getItemsOfType data postType) (map_res (scrape_post env)))
          postTypes)
       (\<lambda>images. Inr (concat (concat images)))"

subsection \<open>parseFilePromise\<close>

text \<open>Lines 290 to 312, from the parsed export on.\<close>

definition parseFilePromise :: "'dt env \<Rightarrow> config \<Rightarrow> export \<Rightarrow> error + post list" where
  "parseFilePromise env config data =
     bind_res (getPostTypes data config) (\<lambda>postTypes.
     bind_res (collectPosts env data postTypes config) (\<lambda>posts.
     bind_res (if saveAttachedImages config then collectAttachedImages data else Inr [])
       (\<lambda>attached.
     bind_res (if saveScrapedImages config then collectScrapedImages env data postTypes
               else Inr [])
       (\<lambda>scraped. Inr (mergeImagesIntoPosts (attached @ scraped) posts)))))"

text \<open>The outcome of the callback for one post; it does not depend on the time at
  which the callback is called nor on the index of the post.\<close>

definition post_outcome :: "'dt env \<Rightarrow> config \<Rightarrow> string \<Rightarrow> item \<Rightarrow> error + post" where
  "post_outcome env config postType p =
     (case extract_post env postType p of
        Inl e \<Rightarrow> Inl e
      | Inr (m, f) \<Rightarrow>
          if postType \<noteq> ''ai1ec_event'' then finish env config p m f
          else (case snd (getEventMetadata env (meta_id m) 0) of
                  Inl e \<Rightarrow> Inl e
                | Inr eventMetadata \<Rightarrow>
                    if \<not> has_event_data eventMetadata then finish env config p m f
                    else bind_res (enrich eventMetadata f) (finish env config p m)))"

text \<open>The items that \<^verbatim>\<open>collectPosts\<close> selects for a post type: of that type, and neither
  trash nor draft.\<close>

definition selectable :: "string \<Rightarrow> item \<Rightarrow> bool" where
  "selectable postType p \<longleftrightarrow>
     post_type p = Some postType \<and> status p \<noteq> None \<and> status p \<noteq> Some ''trash'' \<and> status p \<noteq> Some ''draft''"

section \<open>Models of the platform for the worked examples\<close>

text \<open>
  The parser above takes its libraries as parameters, and the general theorems hold
  for every behaviour of them. The examples of the specification need concrete ones.
  The models below follow the documented algorithms for the inputs described with
  each; they are used for the examples only.
\<close>

subsection \<open>new URL(input, base).href\<close>

text \<open>
  The URL parser of the WHATWG standard for an \<^verbatim>\<open>http\<close> or \<^verbatim>\<open>https\<close> base: an input
  without scheme is resolved against the base (scheme-relative, path-absolute or
  path-relative, with query and fragment), an \<^verbatim>\<open>http(s)://\<close> input stands for itself.
  Characters that the standard percent-encodes, and the normalisation of hosts and
  ports, are outside the model, as are inputs of other schemes (returned as written).
\<close>

record parsed_url =
  u_scheme :: string
  u_authority :: string
  u_path :: "string list"
  u_query :: "string option"
  u_fragment :: "string option"

definition is_slash :: "char \<Rightarrow> bool" where
  "is_slash c \<longleftrightarrow> c = CHR ''/'' \<or> c = CHR 0x5C"

definition is_single_dot :: "string \<Rightarrow> bool" where
  "is_single_dot seg \<longleftrightarrow> map to_lower seg \<in> set [''.'', ''%2e'']"

definition is_double_dot :: "string \<Rightarrow> bool" where
  "is_double_dot seg \<longleftrightarrow> map to_lower seg \<in> set [''..'', ''.%2e'', ''%2e.'', ''%2e%2e'']"

text \<open>The end of a path segment in the path state: \<open>at_end\<close> tells that the segment is
  not followed by a slash.\<close>

definition end_segment :: "string list \<Rightarrow> string \<Rightarrow> bool \<Rightarrow> string list" where
  "end_segment path buffer at_end =
     (if is_double_dot buffer then (if at_end then butlast path @ [[]] else butlast path)
      else if is_single_dot buffer then (if at_end then path @ [[]] else path)
      else path @ [buffer])"

fun path_state :: "string list \<Rightarrow> string \<Rightarrow> string \<Rightarrow> string list" where
  "path_state path buffer [] = end_segment path buffer True"
| "path_state path buffer (c # cs) =
     (if is_slash c then path_state (end_segment path buffer False) [] cs
      else path_state path (buffer @ [c]) cs)"

definition split_first :: "char \<Rightarrow> string \<Rightarrow> string \<times> string option" where
  "split_first d s =
     (if d \<in> set s then (takeWhile (\<lambda>c. c \<noteq> d) s, Some (tl (dropWhile (\<lambda>c. c \<noteq> d) s)))
      else (s, None))"

text \<open>Authority and path of what follows the two slashes.\<close>

definition authority_and_path :: "string \<Rightarrow> (string \<times> string list) option" where
  "authority_and_path s =
     (let auth = takeWhile (\<lambda>c. \<not> is_slash c) s; rest = dropWhile (\<lambda>c. \<not> is_slash c) s in
      if auth = [] then None else Some (auth, path_state [] [] (tl rest)))"

definition parse_http :: "string \<Rightarrow> parsed_url option" where
  "parse_http s =
     (case (case strip_ci ''https://'' s of
              Some r \<Rightarrow> Some (''https'', r)
            | None \<Rightarrow> (case strip_ci ''http://'' s of
                         Some r \<Rightarrow> Some (''http'', r) | None \<Rightarrow> None)) of
        None \<Rightarrow> None
      | Some (sch, r) \<Rightarrow>
          (case split_first (CHR ''#'') r of (r1, frag) \<Rightarrow>
           (case split_first (CHR ''?'') r1 of (r2, q) \<Rightarrow>
            (case authority_and_path r2 of
               None \<Rightarrow> None
             | Some (auth, path) \<Rightarrow>
                 Some \<lparr>u_scheme = sch, u_authority = auth, u_path = path, u_query = q,
                       u_fragment = frag\<rparr>))))"

text \<open>The relative state and the relative slash state of the standard.\<close>

definition resolve_relative :: "parsed_url \<Rightarrow> string \<Rightarrow> parsed_url option" where
  "resolve_relative base input =
     (case split_first (CHR ''#'') input of (r1, frag) \<Rightarrow>
      (case split_first (CHR ''?'') r1 of (r2, q) \<Rightarrow>
      (case r2 of
        [] \<Rightarrow> Some (base\<lparr>u_query := (case q of None \<Rightarrow> u_query base | Some q' \<Rightarrow> Some q'),
                         u_fragment := frag\<rparr>)
      | c # cs \<Rightarrow>
          if is_slash c then
            (case cs of
               [] \<Rightarrow> Some (base\<lparr>u_path := path_state [] [] cs, u_query := q, u_fragment := frag\<rparr>)
             | c2 # cs2 \<Rightarrow>
                 if is_slash c2 then
                   (case authority_and_path (dropWhile is_slash cs2) of
                      None \<Rightarrow> None
                    | Some (auth, path) \<Rightarrow>
                        Some (base\<lparr>u_authority := auth, u_path := path, u_query := q,
                                   u_fragment := frag\<rparr>))
                 else Some (base\<lparr>u_path := path_state [] [] cs, u_query := q,
                                 u_fragment := frag\<rparr>))
          else Some (base\<lparr>u_path := path_state (butlast (u_path base)) [] r2, u_query := q,
                          u_fragment := frag\<rparr>))))"

definition serialize :: "parsed_url \<Rightarrow> string" where
  "serialize u =
     u_scheme u @ ''://'' @ u_authority u @ concat (map (\<lambda>seg. CHR ''/'' # seg) (u_path u)) @
     (case u_query u of None \<Rightarrow> [] | Some q \<Rightarrow> CHR ''?'' # q) @
     (case u_fragment u of None \<Rightarrow> [] | Some f \<Rightarrow> CHR ''#'' # f)"

text \<open>The scheme an input begins with, if it begins with one.\<close>

definition scheme_of :: "string \<Rightarrow> string option" where
  "scheme_of s =
     (let pre = takeWhile (\<lambda>c. c \<noteq> CHR '':'') s in
      if CHR '':'' \<in> set s \<and> pre \<noteq> [] \<and>
         to_lower (hd pre) \<in> set ''abcdefghijklmnopqrstuvwxyz'' \<and>
         list_all (\<lambda>c. to_lower c \<in> set ''abcdefghijklmnopqrstuvwxyz0123456789+-.'') pre
      then Some (map to_lower pre) else None)"

text \<open>Leading and trailing C0 controls and spaces are stripped, tabs and newlines
  removed.\<close>

definition clean_url :: "string \<Rightarrow> string" where
  "clean_url s =
     filter (\<lambda>c. c \<notin> set [CHR 0x09, CHR 0x0A, CHR 0x0D])
       (rev (dropWhile (\<lambda>c. (of_char c :: nat) \<le> 32)
          (rev (dropWhile (\<lambda>c. (of_char c :: nat) \<le> 32) s))))"

definition URL_href :: "string \<Rightarrow> string \<Rightarrow> error + string" where
  "URL_href input base =
     (case parse_http (clean_url base) of
        None \<Rightarrow> Inl TypeError
      | Some b \<Rightarrow>
          (let i = clean_url input in
           case scheme_of i of
             Some sch \<Rightarrow>
               if sch = ''http'' \<or> sch = ''https'' then
                 (case parse_http i of None \<Rightarrow> Inl TypeError | Some u \<Rightarrow> Inr (serialize u))
               else Inr i
           | None \<Rightarrow>
               (case resolve_relative b i of
                  None \<Rightarrow> Inl TypeError | Some u \<Rightarrow> Inr (serialize u))))"

subsection \<open>luxon: DateTime.fromRFC2822, toISODate, toISO, toFormat\<close>

text \<open>
  A \<^verbatim>\<open>DateTime\<close> is invalid, or an instant seen in a zone: the instant in seconds since
  the epoch (an RFC 2822 date has no fraction of a second) and the offset of the zone
  in minutes. Dates are proleptic Gregorian, as those of \<^verbatim>\<open>Date.UTC\<close>.
\<close>

datatype datetime = Invalid_DateTime | DateTime int int

definition days_from_civil :: "int \<Rightarrow> int \<Rightarrow> int \<Rightarrow> int" where
  "days_from_civil y m d =
     (let y' = (if m \<le> 2 then y - 1 else y);
          era = y' div 400;
          yoe = y' - era * 400;
          doy = (153 * (if m > 2 then m - 3 else m + 9) + 2) div 5 + d - 1;
          doe = yoe * 365 + yoe div 4 - yoe div 100 + doy
      in era * 146097 + doe - 719468)"

definition civil_from_days :: "int \<Rightarrow> int \<times> int \<times> int" where
  "civil_from_days z =
     (let z' = z + 719468;
          era = z' div 146097;
          doe = z' - era * 146097;
          yoe = (doe - doe div 1460 + doe div 36524 - doe div 146096) div 365;
          doy = doe - (365 * yoe + yoe div 4 - yoe div 100);
          mp = (5 * doy + 2) div 153;
          d = doy - (153 * mp + 2) div 5 + 1;
          m = (if mp < 10 then mp + 3 else mp - 9)
      in ((if m \<le> 2 then yoe + era * 400 + 1 else yoe + era * 400), m, d))"

text \<open>The ISO weekday, 1 for Monday to 7 for Sunday; day 0 was a Thursday.\<close>

definition weekday_of_days :: "int \<Rightarrow> int" where
  "weekday_of_days z = (z + 3) mod 7 + 1"

definition days_in_month :: "int \<Rightarrow> int \<Rightarrow> int" where
  "days_in_month y m =
     (if m = 2 then (if y mod 4 = 0 \<and> (y mod 100 \<noteq> 0 \<or> y mod 400 = 0) then 29 else 28)
      else if m \<in> {4, 6, 9, 11} then 30 else 31)"

fun number_from :: "int \<Rightarrow> string \<Rightarrow> int option" where
  "number_from n [] = Some n"
| "number_from n (c # cs) =
     (case map_of (zip ''0123456789'' [0, 1, 2, 3, 4, 5, 6, 7, 8, 9]) c of
        None \<Rightarrow> None
      | Some d \<Rightarrow> number_from (10 * n + d) cs)"

text \<open>A run of between \<open>lo\<close> and \<open>hi\<close> digits, as a number.\<close>

definition number :: "nat \<Rightarrow> nat \<Rightarrow> string \<Rightarrow> int option" where
  "number lo hi s = (if lo \<le> length s \<and> length s \<le> hi then number_from 0 s else None)"

text \<open>The comments and the folding white space that luxon takes out before it matches:
  \<^verbatim>\<open>\([^()]*\)\<close> becomes a space. The first argument holds an opened parenthesis and what
  followed it.\<close>

fun uncomment :: "string option \<Rightarrow> string \<Rightarrow> string" where
  "uncomment None [] = []"
| "uncomment (Some buf) [] = buf"
| "uncomment None (c # cs) =
     (if c = CHR ''('' then uncomment (Some [c]) cs else c # uncomment None cs)"
| "uncomment (Some buf) (c # cs) =
     (if c = CHR '')'' then CHR '' '' # uncomment None cs
      else if c = CHR ''('' then buf @ uncomment (Some [c]) cs
      else uncomment (Some (buf @ [c])) cs)"

text \<open>The fields of the date, which the pattern of luxon separates by one white space
  character each, after runs of white space have been made one space.\<close>

fun fields :: "string \<Rightarrow> string \<Rightarrow> string list" where
  "fields buf [] = (if buf = [] then [] else [buf])"
| "fields buf (c # cs) =
     (if js_whitespace c then (if buf = [] then fields [] cs else buf # fields [] cs)
      else fields (buf @ [c]) cs)"

definition month_number :: "string \<Rightarrow> int option" where
  "month_number s =
     map_of (zip [''Jan'', ''Feb'', ''Mar'', ''Apr'', ''May'', ''Jun'', ''Jul'', ''Aug'', ''Sep'',
                  ''Oct'', ''Nov'', ''Dec''] [1, 2, 3, 4, 5, 6, 7, 8, 9, 10, 11, 12]) s"

definition weekday_number :: "string \<Rightarrow> int option" where
  "weekday_number s =
     map_of (zip [''Mon,'', ''Tue,'', ''Wed,'', ''Thu,'', ''Fri,'', ''Sat,'', ''Sun,'']
                 [1, 2, 3, 4, 5, 6, 7]) s"

text \<open>Hours, minutes and seconds of \<^verbatim>\<open>hh:mm\<close> or \<^verbatim>\<open>hh:mm:ss\<close>.\<close>

definition time_of :: "string \<Rightarrow> (int \<times> int \<times> int) option" where
  "time_of s =
     (case s of
        [h1, h2, c1, m1, m2] \<Rightarrow>
          (if c1 = CHR '':'' then
             (case (number 2 2 [h1, h2], number 2 2 [m1, m2]) of
                (Some h, Some m) \<Rightarrow> Some (h, m, 0) | _ \<Rightarrow> None)
           else None)
      | [h1, h2, c1, m1, m2, c2, s1, s2] \<Rightarrow>
          (if c1 = CHR '':'' \<and> c2 = CHR '':'' then
             (case (number 2 2 [h1, h2], number 2 2 [m1, m2], number 2 2 [s1, s2]) of
                (Some h, Some m, Some sec) \<Rightarrow> Some (h, m, sec) | _ \<Rightarrow> None)
           else None)
      | _ \<Rightarrow> None)"

text \<open>The offset of the zone in minutes: an obsolete zone name of luxon's table (\<^verbatim>\<open>UT\<close>
  matches the pattern but has no entry, which makes the date invalid), \<^verbatim>\<open>Z\<close>, or a
  sign and four digits.\<close>

definition offset_of :: "string \<Rightarrow> int option" where
  "offset_of s =
     (case map_of [(''GMT'', 0), (''EDT'', - 240), (''EST'', - 300), (''CDT'', - 300),
                   (''CST'', - 360), (''MDT'', - 360), (''MST'', - 420), (''PDT'', - 420),
                   (''PST'', - 480), (''Z'', 0), (''z'', 0)] s of
        Some off \<Rightarrow> Some (off :: int)
      | None \<Rightarrow>
          (case s of
             [sign, h1, h2, m1, m2] \<Rightarrow>
               (if sign = CHR ''+'' \<or> sign = CHR ''-'' then
                  (case (number 2 2 [h1, h2], number 2 2 [m1, m2]) of
                     (Some h, Some m) \<Rightarrow>
                       Some (if sign = CHR ''-'' then - (h * 60 + m) else h * 60 + m)
                   | _ \<Rightarrow> None)
                else None)
           | _ \<Rightarrow> None))"

text \<open>A year of two digits is taken for 1961 to 2060.\<close>

definition year_of :: "string \<Rightarrow> int option" where
  "year_of s =
     (case number 2 4 s of
        None \<Rightarrow> None
      | Some y \<Rightarrow> Some (if length s = 2 then (if y > 60 then 1900 + y else 2000 + y) else y))"

text \<open>
  The \<^verbatim>\<open>zone\<close> of the options, for the zones that luxon resolves to a fixed offset from
  the name alone: \<^verbatim>\<open>utc\<close> and \<^verbatim>\<open>gmt\<close> in either case, and \<^verbatim>\<open>utc\<close> followed by a sign, one or two
  digits of hours and, if wanted, a colon and two digits of minutes. The zones of the
  time zone database and the zone of the system are outside the model.
\<close>

definition zone_offset :: "string \<Rightarrow> int option" where
  "zone_offset zone =
     (let lowered = map to_lower zone in
      if lowered = ''utc'' \<or> lowered = ''gmt'' then Some 0
      else if take 3 lowered = ''utc'' then
        (case drop 3 lowered of
           [] \<Rightarrow> None
         | sign # rest \<Rightarrow>
             (let hours = takeWhile (\<lambda>c. c \<noteq> CHR '':'') rest;
                  minutes = dropWhile (\<lambda>c. c \<noteq> CHR '':'') rest
              in if sign = CHR ''+'' \<or> sign = CHR ''-'' then
                   (case (number 1 2 hours,
                          if minutes = [] then Some 0 else number 2 2 (tl minutes)) of
                      (Some h, Some m) \<Rightarrow>
                        Some (if sign = CHR ''-'' then - (h * 60 + m) else h * 60 + m)
                    | _ \<Rightarrow> None)
                 else None))
      else None)"

text \<open>The instant of a date whose units are in range (24:00:00 is allowed) and whose
  weekday, if one is given, is the weekday of the date. The offset \<open>off\<close> is the one the
  text gives; the instant is then seen in the zone of the options, \<open>zone\<close>.\<close>

definition instant ::
  "int option \<Rightarrow> int \<Rightarrow> int \<Rightarrow> int \<Rightarrow> int \<times> int \<times> int \<Rightarrow> int \<Rightarrow> int \<Rightarrow> datetime"
where
  "instant wd d m y hms off zone =
     (case hms of (h, mi, s) \<Rightarrow>
        if 1 \<le> d \<and> d \<le> days_in_month y m \<and>
           (h \<le> 23 \<or> (h = 24 \<and> mi = 0 \<and> s = 0)) \<and> mi \<le> 59 \<and> s \<le> 59 \<and>
           (case wd of None \<Rightarrow> True | Some w \<Rightarrow> w = weekday_of_days (days_from_civil y m d))
        then DateTime (days_from_civil y m d * 86400 + h * 3600 + mi * 60 + s - off * 60) zone
        else Invalid_DateTime)"

definition fromRFC2822_luxon :: "string \<Rightarrow> string \<Rightarrow> datetime" where
  "fromRFC2822_luxon text zone =
     (case zone_offset zone of
        None \<Rightarrow> Invalid_DateTime
      | Some zo \<Rightarrow>
          (let fs = fields [] (uncomment None text);
               wd = (case fs of [w, d, m, y, t, z] \<Rightarrow> weekday_number w | _ \<Rightarrow> None)
           in case (if length fs = 6 \<and> wd \<noteq> None then Some (tl fs)
                    else if length fs = 5 then Some fs else None) of
                Some [d, m, y, t, z] \<Rightarrow>
                  (case (number 1 2 d, month_number m, year_of y, time_of t, offset_of z) of
                     (Some d', Some m', Some y', Some t', Some off) \<Rightarrow>
                       instant wd d' m' y' t' off zo
                   | _ \<Rightarrow> Invalid_DateTime)
              | _ \<Rightarrow> Invalid_DateTime))"

definition pad :: "nat \<Rightarrow> int \<Rightarrow> string" where
  "pad n k = replicate (n - length (show_nat (nat k))) (CHR ''0'') @ show_nat (nat k)"

definition iso_date :: "int \<Rightarrow> string" where
  "iso_date days =
     (case civil_from_days days of (y, m, d) \<Rightarrow>
        (if y < 0 then ''-'' @ pad 6 (- y) else if y > 9999 then ''+'' @ pad 6 y else pad 4 y)
        @ ''-'' @ pad 2 m @ ''-'' @ pad 2 d)"

text \<open>The day and the second of the day that the clocks of the zone show at an
  instant.\<close>

definition local_day :: "int \<Rightarrow> int \<Rightarrow> int" where
  "local_day ts zone = (ts + zone * 60) div 86400"

definition local_second :: "int \<Rightarrow> int \<Rightarrow> int" where
  "local_second ts zone = (ts + zone * 60) mod 86400"

definition toISODate_luxon :: "datetime \<Rightarrow> jsval" where
  "toISODate_luxon dt =
     (case dt of
        Invalid_DateTime \<Rightarrow> JNull
      | DateTime ts zone \<Rightarrow> JStr (iso_date (local_day ts zone)))"

definition iso_time :: "int \<Rightarrow> string" where
  "iso_time secs = pad 2 (secs div 3600) @ '':'' @ pad 2 (secs mod 3600 div 60) @ '':'' @
     pad 2 (secs mod 60)"

definition iso_offset :: "int \<Rightarrow> string" where
  "iso_offset zone =
     (if zone = 0 then ''Z''
      else (if zone < 0 then ''-'' else ''+'') @ pad 2 (\<bar>zone\<bar> div 60) @ '':'' @
           pad 2 (\<bar>zone\<bar> mod 60))"

definition toISO_luxon :: "datetime \<Rightarrow> jsval" where
  "toISO_luxon dt =
     (case dt of
        Invalid_DateTime \<Rightarrow> JNull
      | DateTime ts zone \<Rightarrow>
          JStr (iso_date (local_day ts zone) @ ''T'' @ iso_time (local_second ts zone) @
                ''.000'' @ iso_offset zone))"

text \<open>\<^verbatim>\<open>toFormat\<close> for the format \<^verbatim>\<open>yyyy-MM-dd\<close> and for formats without a letter, which
  stand for themselves; the other tokens of luxon are outside the model.\<close>

definition toFormat_luxon :: "datetime \<Rightarrow> string \<Rightarrow> jsval" where
  "toFormat_luxon dt fmt =
     (case dt of
        Invalid_DateTime \<Rightarrow> JStr ''Invalid DateTime''
      | DateTime ts zone \<Rightarrow>
          if fmt = ''yyyy-MM-dd'' then JStr (iso_date (local_day ts zone)) else JStr fmt)"

subsection \<open>decodeURIComponent\<close>

text \<open>\<^verbatim>\<open>decodeURIComponent\<close> on strings whose escapes are ASCII (\<^verbatim>\<open>%00\<close> to \<^verbatim>\<open>%7F\<close>): an
  escape is replaced by its character, a \<^verbatim>\<open>%\<close> without two hexadecimal digits is a
  \<^verbatim>\<open>URIError\<close>. Escapes of longer UTF-8 sequences are outside the model.\<close>

definition hex_value :: "char \<Rightarrow> nat option" where
  "hex_value c =
     map_of (zip ''0123456789abcdef'' [0, 1, 2, 3, 4, 5, 6, 7, 8, 9, 10, 11, 12, 13, 14, 15])
       (to_lower c)"

fun decodeURIComponent_ascii :: "string \<Rightarrow> error + string" where
  "decodeURIComponent_ascii (c # h1 # h2 # cs) =
     (if c = CHR ''%'' then
        (case (hex_value h1, hex_value h2) of
           (Some a, Some b) \<Rightarrow>
             if 16 * a + b < 128 then
               (case decodeURIComponent_ascii cs of
                  Inl e \<Rightarrow> Inl e | Inr r \<Rightarrow> Inr (char_of (16 * a + b) # r))
             else Inl URIError
         | _ \<Rightarrow> Inl URIError)
      else (case decodeURIComponent_ascii (h1 # h2 # cs) of
              Inl e \<Rightarrow> Inl e | Inr r \<Rightarrow> Inr (c # r)))"
| "decodeURIComponent_ascii (c # cs) =
     (if c = CHR ''%'' then Inl URIError
      else (case decodeURIComponent_ascii cs of Inl e \<Rightarrow> Inl e | Inr r \<Rightarrow> Inr (c # r)))"
| "decodeURIComponent_ascii [] = Inr []"

subsection \<open>Example data\<close>

definition blank_item :: item where
  "blank_item =
     \<lparr>post_type = None, status = None, post_id = None, post_name = None, postmeta = None,
      title = None, pubDate = None, category = None, creator = None, encoded = None,
      link = None, attachment_url = None, post_parent = None\<rparr>"

definition example_config :: config where
  "example_config =
     \<lparr>includeOtherTypes = True, saveAttachedImages = True, saveScrapedImages = True\<rparr>"

text \<open>A post with id 10 whose cover image is the attachment 6, before any image is merged.\<close>

definition example_post :: post where
  "example_post =
     \<lparr>meta = \<lparr>meta_id = ''10'', slug = ''hello'', coverImageId = JStr ''6'',
              meta_type = ''post'', imageUrls = []\<rparr>,
      frontmatter = \<lparr>fm_title = ''Hello'', fm_date = JStr ''2020-01-01'', fm_categories = [],
              fm_tags = [], fm_wp_id = ''10'', fm_wp_type = ''post'', fm_wp_slug = ''hello'',
              fm_creator = ''admin'', fm_event = None, fm_coverImage = None\<rparr>,
      content = []\<rparr>"

definition example_attachments :: "asset list" where
  "example_attachments =
     [\<lparr>asset_id = JStr ''5'', postId = ''10'', url = ''http://ex.com/a.png''\<rparr>,
      \<lparr>asset_id = JStr ''6'', postId = ''10'', url = ''http://ex.com/b.gif''\<rparr>]"

text \<open>The default settings of the tool: no custom format, no time, one category
  filtered out.\<close>

definition example_settings :: settings where
  "example_settings =
     \<lparr>custom_date_formatting = [], include_time_with_date = False,
      filter_categories = [''uncategorized'']\<rparr>"

text \<open>
  An environment for the examples: the models above, a translator that returns the
  body as it is, and an events service given as a parameter.
\<close>

definition example_env :: "(string \<Rightarrow> nat \<times> fetch_outcome) \<Rightarrow> datetime env" where
  "example_env service =
     \<lparr>decodeURIComponent = decodeURIComponent_ascii, fromRFC2822 = fromRFC2822_luxon,
      toFormat = toFormat_luxon, toISO = toISO_luxon, toISODate = toISODate_luxon,
      getPostContent = (\<lambda>p config. index0 (encoded p)), new_URL = URL_href,
      fetch = service, settings = example_settings\<rparr>"

text \<open>A published item of the given type and id, with every field the parser reads.\<close>

definition example_item :: "string \<Rightarrow> string \<Rightarrow> item" where
  \<open>example_item type i =
     \<lparr>post_type = Some type, status = Some ''publish'', post_id = Some i,
      post_name = Some ''an-item'', postmeta = None, title = Some ''An item'',
      pubDate = Some ''Wed, 01 Jan 2020 12:00:00 +0000'', category = None,
      creator = Some ''admin'', encoded = Some ''<img src="../img/x.jpg">'',
      link = Some ''https://site.test/post/1/'', attachment_url = None,
      post_parent = None\<rparr>\<close>

definition example_event_data :: event_data where
  "example_event_data =
     \<lparr>start_datetime = JStr ''2020-02-01T18:00:00'', end_datetime = JStr ''2020-02-01T20:00:00'',
      venue = JStr ''Hall'', province = JStr ''MA'', city = JStr [],
      address = JStr ''12 Oxford St'', postal_code = JStr ''02138'',
      ical_source_url = JNull\<rparr>"

text \<open>Four events services: one that answers every request after 100 ms with the
  event data above, one whose network fails for event 7, one that takes 20 s for
  event 7, and one that answers every request with a status that is not OK.\<close>

definition example_service :: "string \<Rightarrow> nat \<times> fetch_outcome" where
  "example_service u = (100, Body (Metadata (Some example_event_data)))"

definition failing_service :: "string \<Rightarrow> nat \<times> fetch_outcome" where
  "failing_service u =
     (if u = ''https://dssg.fas.harvard.edu/wp-json/wp/v2/events/7'' then (100, NetworkFailure)
      else example_service u)"

definition slow_service :: "string \<Rightarrow> nat \<times> fetch_outcome" where
  "slow_service u =
     (if u = ''https://dssg.fas.harvard.edu/wp-json/wp/v2/events/7''
      then (20000, Body (Metadata (Some example_event_data)))
      else example_service u)"

definition not_ok_service :: "string \<Rightarrow> nat \<times> fetch_outcome" where
  "not_ok_service u = (100, HttpNotOk)"

text \<open>Three published events, and two published posts the first of which has no
  \<^verbatim>\<open>post_id\<close> element.\<close>

definition example_events :: export where
  "example_events =
     [example_item ''ai1ec_event'' ''7'', example_item ''ai1ec_event'' ''8'',
      example_item ''ai1ec_event'' ''9'']"

definition example_posts_missing_id :: export where
  "example_posts_missing_id =
     [(example_item ''post'' ''1'')\<lparr>post_id := None\<rparr>, example_item ''post'' ''2'']"

text \<open>The post that \<^verbatim>\<open>collectPosts\<close> makes of \<open>example_item type i\<close> when the type is not the
  event type.\<close>

definition example_collected :: "string \<Rightarrow> string \<Rightarrow> post" where
  \<open>example_collected type i =
     \<lparr>meta = \<lparr>meta_id = i, slug = ''an-item'', coverImageId = JUndefined, meta_type = type,
              imageUrls = []\<rparr>,
      frontmatter = \<lparr>fm_title = ''An item'', fm_date = JStr ''2020-01-01'', fm_categories = [],
              fm_tags = [], fm_wp_id = i, fm_wp_type = type, fm_wp_slug = ''an-item'',
              fm_creator = ''admin'', fm_event = None, fm_coverImage = None\<rparr>,
      content = ''<img src="../img/x.jpg">''\<rparr>\<close>

section \<open>Properties\<close>

subsection \<open>Helper lemmas\<close>

lemma map_res_Some:
  "map_res (\<lambda>x. index0 (f x)) xs = Inr ys \<longleftrightarrow> map f xs = map Some ys"
proof (induction xs arbitrary: ys)
  case Nil
  then show ?case by auto
next
  case (Cons x xs)
  show ?case
  proof (cases "f x")
    case None
    then show ?thesis by (auto simp: index0_def)
  next
    case (Some v)
    show ?thesis
    proof (cases "map_res (\<lambda>x. index0 (f x)) xs")
      case (Inl e)
      then have "\<And>zs. map f xs \<noteq> map Some zs" using Cons.IH by fastforce
      with Some Inl show ?thesis by (cases ys) (auto simp: index0_def)
    next
      case (Inr zs)
      then have "map f xs = map Some zs" using Cons.IH by simp
      with Some Inr show ?thesis by (cases ys) (auto simp: index0_def)
    qed
  qed
qed

lemma foldl_set_add:
  "foldl set_add acc xs = acc @ first_seen (filter (\<lambda>y. y \<notin> set acc) xs)"
proof (induction xs arbitrary: acc)
  case Nil
  then show ?case by simp
next
  case (Cons x xs)
  show ?case
  proof (cases "x \<in> set acc")
    case True
    then show ?thesis using Cons.IH [of acc] by (simp add: set_add_def)
  next
    case False
    have "filter (\<lambda>y. y \<notin> set (acc @ [x])) xs
            = filter (\<lambda>y. y \<noteq> x) (filter (\<lambda>y. y \<notin> set acc) xs)"
      by (simp add: conj_commute)
    then show ?thesis using False Cons.IH [of "acc @ [x]"] by (simp add: set_add_def)
  qed
qed

lemma new_Set_first_seen: "new_Set xs = first_seen xs"
  by (simp add: new_Set_def foldl_set_add)

lemma set_first_seen: "set (first_seen xs) = set xs"
proof (induction xs rule: first_seen.induct)
  case 1
  then show ?case by simp
next
  case (2 x xs)
  then show ?case by auto
qed

lemma distinct_first_seen: "distinct (first_seen xs)"
proof (induction xs rule: first_seen.induct)
  case 1
  then show ?case by simp
next
  case (2 x xs)
  then show ?case by (simp add: set_first_seen)
qed

lemma subseq_first_seen: "subseq (first_seen xs) xs"
proof (induction xs rule: first_seen.induct)
  case 1
  then show ?case by simp
next
  case (2 x xs)
  have "subseq (filter (\<lambda>y. y \<noteq> x) xs) xs" by simp
  with 2 have "subseq (first_seen (filter (\<lambda>y. y \<noteq> x) xs)) xs"
    using subseq_order.order_trans by blast
  then show ?case by simp
qed

lemma map_res_untyped:
  "\<exists>p \<in> set data. post_type p = None \<Longrightarrow>
   map_res (\<lambda>item. index0 (post_type item)) data = Inl TypeError"
proof (induction data)
  case Nil
  then show ?case by simp
next
  case (Cons x xs)
  show ?case
  proof (cases "post_type x")
    case None
    then show ?thesis by (simp add: index0_def)
  next
    case (Some t)
    with Cons.prems have "\<exists>p \<in> set xs. post_type p = None" by auto
    with Cons.IH Some show ?thesis by (simp add: index0_def)
  qed
qed

subsection \<open>The record classifier\<close>

text \<open>
  C6 as the specification states it does not hold for every export. With the flag, an
  export without items has no declared type, and the classified types should be none;
  \<^verbatim>\<open>getPostTypes\<close> throws a \<^verbatim>\<open>TypeError\<close> (the channel has no \<^verbatim>\<open>item\<close> member to call \<^verbatim>\<open>map\<close> on).
  It throws as well when an item has no \<^verbatim>\<open>post_type\<close>.
\<close>

theorem getPostTypes_no_items_counterexample:
  "includeOtherTypes example_config \<and>
   getPostTypes [] example_config = Inl TypeError \<and>
   getPostTypes [blank_item\<lparr>post_type := Some ''post''\<rparr>, blank_item] example_config
     = Inl TypeError"
  by (simp add: getPostTypes_def items_of_def example_config_def blank_item_def index0_def
      bind_res_def)

text \<open>
  C6, amended. Without the include-other-types flag the classified types are exactly
  \<open>post\<close>. With it, in an export that has items, each declaring a type, they are the
  declared types of all items without the five excluded system types, each type once,
  in the order in which the types are first seen in the export. With it, in an export
  that has no items or has an item without a type, the classification fails with a
  \<^verbatim>\<open>TypeError\<close>.
\<close>

theorem getPostTypes_classified:
  "(\<not> includeOtherTypes config \<longrightarrow> getPostTypes data config = Inr [''post'']) \<and>
   (includeOtherTypes config \<and> data \<noteq> [] \<and> map post_type data = map Some types \<longrightarrow>
      (\<exists>r. getPostTypes data config = Inr r \<and>
           r = first_seen (filter (\<lambda>t. t \<notin> set excluded_types) types) \<and>
           distinct r \<and>
           set r = set types - set excluded_types \<and>
           subseq r types)) \<and>
   (includeOtherTypes config \<and> (data = [] \<or> (\<exists>p \<in> set data. post_type p = None)) \<longrightarrow>
      getPostTypes data config = Inl TypeError)"
proof (intro conjI impI)
  assume "\<not> includeOtherTypes config"
  then show "getPostTypes data config = Inr [''post'']"
    by (simp add: getPostTypes_def)
next
  assume a: "includeOtherTypes config \<and> data \<noteq> [] \<and> map post_type data = map Some types"
  let ?kept = "filter (\<lambda>t. t \<notin> set excluded_types) types"
  from a have m: "map_res (\<lambda>item. index0 (post_type item)) data = Inr types"
    by (simp add: map_res_Some)
  with a have g: "getPostTypes data config = Inr (first_seen ?kept)"
    by (simp add: getPostTypes_def items_of_def bind_res_def new_Set_first_seen)
  have s: "subseq (first_seen ?kept) types"
    using subseq_first_seen [of ?kept] subseq_filter_left [of "\<lambda>t. t \<notin> set excluded_types" types]
      subseq_order.order_trans by blast
  have "set (first_seen ?kept) = set types - set excluded_types"
    by (auto simp: set_first_seen)
  with g s show "\<exists>r. getPostTypes data config = Inr r \<and>
           r = first_seen ?kept \<and> distinct r \<and>
           set r = set types - set excluded_types \<and> subseq r types"
    by (simp add: distinct_first_seen)
next
  assume b: "includeOtherTypes config \<and> (data = [] \<or> (\<exists>p \<in> set data. post_type p = None))"
  show "getPostTypes data config = Inl TypeError"
  proof (cases "data = []")
    case True
    with b show ?thesis by (simp add: getPostTypes_def items_of_def bind_res_def)
  next
    case False
    with b have "map_res (\<lambda>item. index0 (post_type item)) data = Inl TypeError"
      by (simp add: map_res_untyped)
    with b False show ?thesis by (simp add: getPostTypes_def items_of_def bind_res_def)
  qed
qed

text \<open>Witness for C6: a run without the flag, an export with the types post,
  attachment, page, post under the flag, and an export whose only item has no type.\<close>

theorem getPostTypes_classified_witness:
  "\<not> includeOtherTypes (example_config\<lparr>includeOtherTypes := False\<rparr>) \<and>
   getPostTypes [] (example_config\<lparr>includeOtherTypes := False\<rparr>) = Inr [''post''] \<and>
   includeOtherTypes example_config \<and>
   getPostTypes
     [blank_item\<lparr>post_type := Some ''post''\<rparr>, blank_item\<lparr>post_type := Some ''attachment''\<rparr>,
      blank_item\<lparr>post_type := Some ''page''\<rparr>, blank_item\<lparr>post_type := Some ''post''\<rparr>]
     example_config = Inr [''post'', ''page''] \<and>
   post_type blank_item = None \<and>
   getPostTypes [blank_item] example_config = Inl TypeError"
proof -
  let ?off = "example_config\<lparr>includeOtherTypes := False\<rparr>"
  let ?data = "[blank_item\<lparr>post_type := Some ''post''\<rparr>,
      blank_item\<lparr>post_type := Some ''attachment''\<rparr>,
      blank_item\<lparr>post_type := Some ''page''\<rparr>, blank_item\<lparr>post_type := Some ''post''\<rparr>]"
  let ?types = "[''post'', ''attachment'', ''page'', ''post'']"
  have off: "\<not> includeOtherTypes ?off" by (simp add: example_config_def)
  have on: "includeOtherTypes example_config \<and> ?data \<noteq> [] \<and>
      map post_type ?data = map Some ?types"
    by (simp add: example_config_def blank_item_def)
  have 1: "getPostTypes [] ?off = Inr [''post'']"
    using getPostTypes_classified [of ?off "[]"] off by blast
  have "\<exists>r. getPostTypes ?data example_config = Inr r \<and>
      r = first_seen (filter (\<lambda>t. t \<notin> set excluded_types) ?types)"
    using getPostTypes_classified [of example_config ?data ?types] on by blast
  moreover have "first_seen (filter (\<lambda>t. t \<notin> set excluded_types) ?types) = [''post'', ''page'']"
    by (simp add: excluded_types_def)
  ultimately have 2: "getPostTypes ?data example_config = Inr [''post'', ''page'']"
    by simp
  have none: "post_type blank_item = None" by (simp add: blank_item_def)
  with on have "includeOtherTypes example_config \<and>
      ([blank_item] = [] \<or> (\<exists>p \<in> set [blank_item]. post_type p = None))"
    by simp
  then have 3: "getPostTypes [blank_item] example_config = Inl TypeError"
    using getPostTypes_classified [of example_config "[blank_item]"] by blast
  from off on 1 2 3 none show ?thesis by blast
qed

subsection \<open>The correlator\<close>

lemma length_mergeImagesIntoPosts:
  "length (mergeImagesIntoPosts images posts) = length posts"
  unfolding mergeImagesIntoPosts_def by (induction images arbitrary: posts) simp_all

lemma mergeImagesIntoPosts_map:
  "mergeImagesIntoPosts images posts = map (merge_all images) posts"
  unfolding mergeImagesIntoPosts_def merge_all_def
  by (induction images arbitrary: posts) simp_all

lemma merge_image_ids [simp]:
  "meta_id (meta (merge_image a p)) = meta_id (meta p)"
  "coverImageId (meta (merge_image a p)) = coverImageId (meta p)"
  by (simp_all add: merge_image_def Let_def)

lemma merge_image_rules [simp]:
  "rule_A b (merge_image a p) = rule_A b p"
  "rule_B b (merge_image a p) = rule_B b p"
  by (simp_all add: rule_A_def rule_B_def)

lemma merge_image_imageUrls:
  "imageUrls (meta (merge_image a p)) =
     (if rule_A a p \<or> rule_B a p then set_add (imageUrls (meta p)) (url a)
      else imageUrls (meta p))"
  by (simp add: merge_image_def Let_def rule_A_def rule_B_def set_add_def)

lemma merge_image_coverImage:
  "fm_coverImage (frontmatter (merge_image a p)) =
     (if rule_B a p then Some (getFilenameFromUrl (url a))
      else fm_coverImage (frontmatter p))"
  by (simp add: merge_image_def Let_def rule_B_def)

lemma merge_all_snoc: "merge_all (images @ [a]) p = merge_image a (merge_all images p)"
  by (simp add: merge_all_def)

lemma merge_all_rules [simp]:
  "rule_A b (merge_all images p) = rule_A b p"
  "rule_B b (merge_all images p) = rule_B b p"
  by (induction images rule: rev_induct) (simp_all add: merge_all_snoc, simp_all add: merge_all_def)

lemma merge_all_imageUrls:
  "imageUrls (meta (merge_all images p)) =
     foldl set_add (imageUrls (meta p))
       (map url (filter (\<lambda>a. rule_A a p \<or> rule_B a p) images))"
proof (induction images rule: rev_induct)
  case Nil
  then show ?case by (simp add: merge_all_def)
next
  case (snoc a images)
  then show ?case by (simp add: merge_all_snoc merge_image_imageUrls)
qed

lemma merge_all_coverImage:
  "fm_coverImage (frontmatter (merge_all images p)) =
     (case filter (\<lambda>a. rule_B a p) images of
        [] \<Rightarrow> fm_coverImage (frontmatter p)
      | b # bs \<Rightarrow> Some (getFilenameFromUrl (url (last (b # bs)))))"
proof (induction images rule: rev_induct)
  case Nil
  then show ?case by (simp add: merge_all_def)
next
  case (snoc a images)
  then show ?case
    by (auto simp add: merge_all_snoc merge_image_coverImage split: list.splits)
qed

lemma distinct_foldl_set_add:
  "distinct acc \<Longrightarrow> distinct (foldl set_add acc xs)"
  by (induction xs arbitrary: acc) (simp_all add: set_add_def)

lemma set_foldl_set_add: "set (foldl set_add acc xs) = set acc \<union> set xs"
  by (induction xs arbitrary: acc) (auto simp add: set_add_def)

text \<open>
  C4. One image against one post changes exactly two things: the URL of the image is
  appended to \<open>imageUrls\<close> if rule A or rule B holds (and the URL is not there yet), and
  \<open>coverImage\<close> becomes the file name of the URL if rule B holds. Over the whole run a
  URL is among the \<open>imageUrls\<close> of a post afterwards iff it was there before or belongs
  to an image that satisfies rule A or rule B for that post. For the attachments
  \<open>a.png\<close> (id 5, parent 10) and \<open>b.gif\<close> (id 6, parent 10) and a post with id 10 and
  cover image 6 the result is \<open>imageUrls = [a.png, b.gif]\<close> and \<open>coverImage = b.gif\<close>.
\<close>

theorem mergeImagesIntoPosts_rules:
  "merge_image a p =
     p\<lparr>frontmatter := (frontmatter p)\<lparr>fm_coverImage :=
          (if rule_B a p then Some (getFilenameFromUrl (url a))
           else fm_coverImage (frontmatter p))\<rparr>,
       meta := (meta p)\<lparr>imageUrls :=
          (if (rule_A a p \<or> rule_B a p) \<and> url a \<notin> set (imageUrls (meta p))
           then imageUrls (meta p) @ [url a] else imageUrls (meta p))\<rparr>\<rparr> \<and>
   length (mergeImagesIntoPosts images posts) = length posts \<and>
   (\<forall>i u. i < length posts \<longrightarrow>
      (u \<in> set (imageUrls (meta (mergeImagesIntoPosts images posts ! i))) \<longleftrightarrow>
       u \<in> set (imageUrls (meta (posts ! i))) \<or>
       (\<exists>img \<in> set images. url img = u \<and> (rule_A img (posts ! i) \<or> rule_B img (posts ! i))))) \<and>
   (\<forall>q. meta_id (meta q) = ''10'' \<and> coverImageId (meta q) = JStr ''6'' \<and>
        imageUrls (meta q) = [] \<longrightarrow>
      map (\<lambda>r. (imageUrls (meta r), fm_coverImage (frontmatter r)))
        (mergeImagesIntoPosts example_attachments [q])
      = [([''http://ex.com/a.png'', ''http://ex.com/b.gif''], Some ''b.gif'')])"
proof (intro conjI allI impI)
  show "merge_image a p =
     p\<lparr>frontmatter := (frontmatter p)\<lparr>fm_coverImage :=
          (if rule_B a p then Some (getFilenameFromUrl (url a))
           else fm_coverImage (frontmatter p))\<rparr>,
       meta := (meta p)\<lparr>imageUrls :=
          (if (rule_A a p \<or> rule_B a p) \<and> url a \<notin> set (imageUrls (meta p))
           then imageUrls (meta p) @ [url a] else imageUrls (meta p))\<rparr>\<rparr>"
    by (simp add: merge_image_def Let_def rule_A_def rule_B_def)
next
  show "length (mergeImagesIntoPosts images posts) = length posts"
    by (rule length_mergeImagesIntoPosts)
next
  fix i u
  assume i: "i < length posts"
  then have "imageUrls (meta (mergeImagesIntoPosts images posts ! i))
      = foldl set_add (imageUrls (meta (posts ! i)))
          (map url (filter (\<lambda>a. rule_A a (posts ! i) \<or> rule_B a (posts ! i)) images))"
    by (simp add: mergeImagesIntoPosts_map merge_all_imageUrls)
  then show "u \<in> set (imageUrls (meta (mergeImagesIntoPosts images posts ! i))) \<longleftrightarrow>
       u \<in> set (imageUrls (meta (posts ! i))) \<or>
       (\<exists>img \<in> set images. url img = u \<and> (rule_A img (posts ! i) \<or> rule_B img (posts ! i)))"
    by (auto simp add: set_foldl_set_add)
next
  fix q :: post
  assume q: "meta_id (meta q) = ''10'' \<and> coverImageId (meta q) = JStr ''6'' \<and>
        imageUrls (meta q) = []"
  then show "map (\<lambda>r. (imageUrls (meta r), fm_coverImage (frontmatter r)))
        (mergeImagesIntoPosts example_attachments [q])
      = [([''http://ex.com/a.png'', ''http://ex.com/b.gif''], Some ''b.gif'')]"
    by (simp add: mergeImagesIntoPosts_def example_attachments_def merge_image_def
        getFilenameFromUrl_def)
qed

text \<open>Witness for C4: the post and the two attachments of the example.\<close>

theorem mergeImagesIntoPosts_rules_witness:
  "meta_id (meta example_post) = ''10'' \<and> coverImageId (meta example_post) = JStr ''6'' \<and>
   imageUrls (meta example_post) = [] \<and> (0::nat) < length [example_post] \<and>
   map (\<lambda>r. (imageUrls (meta r), fm_coverImage (frontmatter r)))
     (mergeImagesIntoPosts example_attachments [example_post])
     = [([''http://ex.com/a.png'', ''http://ex.com/b.gif''], Some ''b.gif'')] \<and>
   (''http://ex.com/a.png''
      \<in> set (imageUrls (meta (mergeImagesIntoPosts example_attachments [example_post] ! 0))))"
proof -
  have h: "meta_id (meta example_post) = ''10'' \<and> coverImageId (meta example_post) = JStr ''6'' \<and>
      imageUrls (meta example_post) = []"
    by (simp add: example_post_def)
  have a: "\<exists>img \<in> set example_attachments. url img = ''http://ex.com/a.png'' \<and>
      (rule_A img ([example_post] ! 0) \<or> rule_B img ([example_post] ! 0))"
    by (simp add: example_attachments_def rule_A_def example_post_def)
  have l: "(0::nat) < length [example_post]" by simp
  note t = mergeImagesIntoPosts_rules [of _ _ example_attachments "[example_post]"]
  from t h have 1: "map (\<lambda>r. (imageUrls (meta r), fm_coverImage (frontmatter r)))
     (mergeImagesIntoPosts example_attachments [example_post])
     = [([''http://ex.com/a.png'', ''http://ex.com/b.gif''], Some ''b.gif'')]"
    by blast
  from t a l have 2: "''http://ex.com/a.png''
      \<in> set (imageUrls (meta (mergeImagesIntoPosts example_attachments [example_post] ! 0)))"
    by blast
  from h l 1 2 show ?thesis by blast
qed

subsection \<open>Promises and the loop of collectPosts\<close>

lemma map_res_Inr: "map_res f xs = Inr ys \<longleftrightarrow> map f xs = map Inr ys"
proof (induction xs arbitrary: ys)
  case Nil
  then show ?case by auto
next
  case (Cons x xs)
  show ?case
  proof (cases "f x")
    case (Inl e)
    then show ?thesis by (cases ys) auto
  next
    case fx: (Inr v)
    show ?thesis
    proof (cases "map_res f xs")
      case (Inl e)
      then have "\<And>zs. map f xs \<noteq> map Inr zs" using Cons.IH by fastforce
      with fx Inl show ?thesis by (cases ys) auto
    next
      case (Inr zs)
      then have "map f xs = map Inr zs" using Cons.IH by simp
      with fx Inr show ?thesis by (cases ys) auto
    qed
  qed
qed

lemma map_res_Inl: "map_res f xs = Inl e \<Longrightarrow> \<exists>x \<in> set xs. f x = Inl e"
  by (induction xs) (auto split: sum.splits)

lemma map_res_total: "(\<exists>ys. map_res f xs = Inr ys) \<longleftrightarrow> (\<forall>x \<in> set xs. \<exists>y. f x = Inr y)"
  by (induction xs) (auto split: sum.splits)

lemma filter_res_Inr:
  "filter_res q xs = Inr ys \<Longrightarrow> ys = filter (\<lambda>x. q x = Inr True) xs"
  by (induction xs arbitrary: ys) (auto split: sum.splits if_splits)

lemma filter_res_total:
  "(\<exists>ys. filter_res q xs = Inr ys) \<longleftrightarrow> (\<forall>x \<in> set xs. \<exists>b. q x = Inr b)"
  by (induction xs) (auto split: sum.splits)

lemma first_rejection_None:
  "first_rejection ts = None \<longleftrightarrow> (\<forall>t \<in> set ts. \<exists>v. outcome t = Inr v)"
  by (induction ts) (auto split: sum.splits option.splits)

lemma promise_all_Inr:
  "promise_all now ts = (t, Inr ps) \<Longrightarrow> map outcome ts = map Inr ps"
  by (auto simp: promise_all_def map_res_Inr split: option.splits)

lemma promise_all_Inl:
  "outcome x = Inl e \<Longrightarrow> x \<in> set ts \<Longrightarrow> \<exists>t e'. promise_all now ts = (t, Inl e')"
proof -
  assume a: "outcome x = Inl e" "x \<in> set ts"
  then have "first_rejection ts \<noteq> None" using first_rejection_None [of ts] by auto
  then show ?thesis by (auto simp: promise_all_def)
qed

lemma promise_all_fulfilled:
  "map outcome ts = map Inr ps \<Longrightarrow>
   promise_all now ts = (foldl max now (map settled_at ts), Inr ps)"
proof -
  assume a: "map outcome ts = map Inr ps"
  then have "\<forall>t \<in> set ts. \<exists>v. outcome t = Inr v"
    by (metis (no_types, lifting) in_set_conv_nth length_map nth_map)
  then have "first_rejection ts = None" by (simp add: first_rejection_None)
  with a show ?thesis by (simp add: promise_all_def map_res_Inr)
qed

lemma snd_getEventMetadata:
  "snd (getEventMetadata env i now) = snd (getEventMetadata env i 0)"
  by (simp add: getEventMetadata_def split: prod.splits)

lemma outcome_processPost:
  "outcome (processPost env config postType now index p) = post_outcome env config postType p"
proof -
  obtain t r where g: "getEventMetadata env (meta_id (fst (projr (extract_post env postType p))))
      (if index \<noteq> 0 then delay now 5000 else now) = (t, r)"
    by fastforce
  then have "snd (getEventMetadata env (meta_id (fst (projr (extract_post env postType p)))) 0) = r"
    using snd_getEventMetadata by (metis snd_conv)
  with g show ?thesis
    by (auto simp: processPost_def post_outcome_def Let_def split: sum.splits prod.splits)
qed

lemma map_snd_of_enumerate: "map (\<lambda>x. g (snd x)) (enumerate n xs) = map g xs"
  by (induction xs arbitrary: n) simp_all

lemma map_outcome_postsPromises:
  "map outcome (postsPromises env config postType now ps) = map (post_outcome env config postType) ps"
  by (simp add: postsPromises_def outcome_processPost case_prod_unfold comp_def
      map_snd_of_enumerate)

lemma selection:
  assumes "bind_res (getItemsOfType data postType) (filter_res not_trash_or_draft) = Inr sel"
  shows "sel = filter (selectable postType) data"
proof -
  from assms obtain items where i: "getItemsOfType data postType = Inr items"
    and s: "filter_res not_trash_or_draft items = Inr sel"
    by (auto simp: bind_res_def split: sum.splits)
  from i have 1: "items = filter (\<lambda>x. post_type x = Some postType) data"
    unfolding getItemsOfType_def items_of_def
    by (auto dest!: filter_res_Inr simp: bind_res_def index0_def
        split: option.splits if_splits intro!: filter_cong)
  from s have all: "\<forall>x \<in> set items. \<exists>b. not_trash_or_draft x = Inr b"
    using filter_res_total [of not_trash_or_draft items] by auto
  from s have 2: "sel = filter (\<lambda>x. not_trash_or_draft x = Inr True) items"
    by (rule filter_res_Inr)
  have "filter (\<lambda>x. not_trash_or_draft x = Inr True) items = filter (selectable postType) items"
    using 1 by (auto intro!: filter_cong simp: not_trash_or_draft_def selectable_def bind_res_def index0_def split: option.splits)
  also have "\<dots> = filter (selectable postType) data"
    unfolding 1 by (auto simp: selectable_def intro!: filter_cong)
  finally show ?thesis using 2 by simp
qed

lemma collectPosts_from_rejected:
  assumes "postType \<in> set postTypes" and "p \<in> set data" and "selectable postType p"
    and "post_outcome env config postType p = Inl e"
  shows "\<exists>t e'. collectPosts_from env config data now postTypes allPosts = (t, Inl e')"
  using assms(1)
proof (induction postTypes arbitrary: now allPosts)
  case Nil
  then show ?case by simp
next
  case (Cons pt rest)
  show ?case
  proof (cases "bind_res (getItemsOfType data pt) (filter_res not_trash_or_draft)")
    case (Inl e0)
    then show ?thesis by simp
  next
    case (Inr sel)
    obtain t r where pa: "promise_all now (postsPromises env config pt now sel) = (t, r)"
      by fastforce
    show ?thesis
    proof (cases r)
      case (Inl e1)
      with Inr pa show ?thesis by simp
    next
      case r: (Inr resolved)
      have ne: "pt \<noteq> postType"
      proof
        assume eq: "pt = postType"
        from Inr have "sel = filter (selectable pt) data" by (rule selection)
        with assms eq have "p \<in> set sel" by simp
        then have "Inl e \<in> set (map outcome (postsPromises env config pt now sel))"
          using assms(4) eq by (force simp add: map_outcome_postsPromises)
        moreover from pa r have "map outcome (postsPromises env config pt now sel) = map Inr resolved"
          using promise_all_Inr by blast
        ultimately show False by auto
      qed
      with Cons.prems have "postType \<in> set rest" by simp
      from Cons.IH [OF this] Inr pa r show ?thesis by simp
    qed
  qed
qed

lemma collectPosts_from_invariant:
  assumes "\<And>postType p q. post_outcome env config postType p = Inr q \<Longrightarrow> P q"
    and "\<forall>q \<in> set allPosts. P q"
    and "collectPosts_from env config data now postTypes allPosts = (t, Inr posts)"
  shows "\<forall>q \<in> set posts. P q"
  using assms(2,3)
proof (induction postTypes arbitrary: now allPosts)
  case Nil
  then show ?case by simp
next
  case (Cons pt rest)
  from Cons.prems(2) obtain sel t1 resolved where
    sel: "bind_res (getItemsOfType data pt) (filter_res not_trash_or_draft) = Inr sel"
    and pa: "promise_all now (postsPromises env config pt now sel) = (t1, Inr resolved)"
    and rec: "collectPosts_from env config data t1 rest (allPosts @ resolved) = (t, Inr posts)"
    by (auto split: sum.splits prod.splits)
  from pa have "map (post_outcome env config pt) sel = map Inr resolved"
    using promise_all_Inr map_outcome_postsPromises by metis
  then have "\<forall>q \<in> set resolved. \<exists>p. post_outcome env config pt p = Inr q"
    by (metis (no_types, lifting) in_set_conv_nth length_map nth_map)
  with assms(1) have "\<forall>q \<in> set resolved. P q" by blast
  with Cons.prems(1) have "\<forall>q \<in> set (allPosts @ resolved). P q" by auto
  from Cons.IH [OF this rec] show ?case .
qed

lemma post_outcome_no_id:
  "post_id p = None \<Longrightarrow> post_outcome env config postType p = Inl TypeError"
  by (simp add: post_outcome_def extract_post_def make_meta_def getPostId_def index0_def
      bind_res_def)

lemma extract_post_no_id:
  "post_id p = None \<Longrightarrow> extract_post env postType p = Inl TypeError"
  by (simp add: extract_post_def make_meta_def getPostId_def index0_def bind_res_def)

lemma extract_post_meta_id:
  "extract_post env postType p = Inr (m, f) \<Longrightarrow> post_id p = Some (meta_id m)"
  by (auto simp: extract_post_def make_meta_def getPostId_def index0_def bind_res_def
      split: sum.splits option.splits)

lemma post_outcome_fetch_failed:
  assumes "post_id p = Some i"
    and "fetch env (''https://dssg.fas.harvard.edu/wp-json/wp/v2/events/'' @ i) = (latency, response)"
    and "10000 \<le> latency \<or> response = NetworkFailure"
  shows "\<exists>e. post_outcome env config ''ai1ec_event'' p = Inl e"
proof (cases "extract_post env ''ai1ec_event'' p")
  case (Inl e)
  then show ?thesis by (simp add: post_outcome_def)
next
  case (Inr mf)
  obtain m f where mf: "mf = (m, f)" by (cases mf)
  with Inr have "meta_id m = i" using extract_post_meta_id assms(1) by fastforce
  with assms(2,3) have "\<exists>e. snd (getEventMetadata env (meta_id m) 0) = Inl e"
    by (auto simp: getEventMetadata_def)
  with Inr mf show ?thesis by (auto simp: post_outcome_def)
qed

lemma nth_postsPromises:
  "i < length ps \<Longrightarrow>
   postsPromises env config postType now ps ! i = processPost env config postType now i (ps ! i)"
  by (simp add: postsPromises_def nth_enumerate_eq)

subsection \<open>The worked examples, evaluated\<close>

lemma example_date:
  "toISODate_luxon (fromRFC2822_luxon ''Wed, 01 Jan 2020 12:00:00 +0000'' ''utc'')
     = JStr ''2020-01-01''"
  by code_simp

lemma example_scan: \<open>matchAll_img ''<img src="../img/x.jpg">'' = [''../img/x.jpg'']\<close>
  by code_simp

lemma example_url:
  "URL_href ''../img/x.jpg'' ''https://site.test/post/1/''
     = Inr ''https://site.test/post/img/x.jpg''"
  by code_simp

lemma example_extract:
  "extract_post (example_env service) type (example_item type' i) =
     Inr (\<lparr>meta_id = i, slug = ''an-item'', coverImageId = JUndefined, meta_type = type,
           imageUrls = []\<rparr>,
          \<lparr>fm_title = ''An item'', fm_date = JStr ''2020-01-01'', fm_categories = [],
           fm_tags = [], fm_wp_id = i, fm_wp_type = type, fm_wp_slug = ''an-item'',
           fm_creator = ''admin'', fm_event = None, fm_coverImage = None\<rparr>)"
  by (simp add: extract_post_def make_meta_def make_frontmatter_def getPostId_def
      getPostSlug_def getPostCoverImageId_def getPostTitle_def getPostDate_def
      getCategories_def getTags_def processCategoryTags_def getPostCreator_def
      example_env_def example_item_def example_settings_def index0_def bind_res_def
      example_date)

lemma example_finish:
  \<open>finish (example_env service) config (example_item type i) m f =
     Inr \<lparr>meta = m, frontmatter = f, content = ''<img src="../img/x.jpg">''\<rparr>\<close>
  by (simp add: finish_def example_env_def example_item_def index0_def bind_res_def)

lemma bind_res_Inr: "bind_res (Inr x) f = f x"
  by (simp add: bind_res_def)

lemma example_of_type:
  "filter_res (\<lambda>item. bind_res (index0 (post_type item)) (\<lambda>t. Inr (t = type)))
     (map (example_item type) ids) = Inr (map (example_item type) ids)"
  by (induction ids) (auto simp: example_item_def index0_def bind_res_def)

lemma example_published:
  "filter_res not_trash_or_draft (map (example_item type) ids) = Inr (map (example_item type) ids)"
  by (induction ids) (auto simp: not_trash_or_draft_def example_item_def index0_def bind_res_def)

lemma example_selected:
  "ids \<noteq> [] \<Longrightarrow>
   bind_res (getItemsOfType (map (example_item type) ids) type) (filter_res not_trash_or_draft)
     = Inr (map (example_item type) ids)"
proof -
  assume "ids \<noteq> []"
  then have "getItemsOfType (map (example_item type) ids) type = Inr (map (example_item type) ids)"
    unfolding getItemsOfType_def items_of_def by (simp add: bind_res_Inr example_of_type)
  then show ?thesis by (simp add: bind_res_Inr example_published)
qed

lemma example_fetch: "fetch (example_env service) = service"
  by (simp add: example_env_def)

lemmas example_run =
  postsPromises_def processPost_def example_extract example_finish getEventMetadata_def
  example_fetch promise_all_def delay_def has_event_data_def enrich_def the_event_data_def
  getAddress_def bind_res_def example_service_def example_event_data_def

lemma example_events_failing:
  "collectPosts (example_env failing_service)
     [example_item ''ai1ec_event'' ''7'', example_item ''ai1ec_event'' ''8'']
     [''ai1ec_event''] config = Inl FetchError"
  unfolding collectPosts_def collectPosts_from.simps
    example_selected [where type = "''ai1ec_event''" and ids = "[''7'', ''8'']", simplified]
  by (simp add: example_run failing_service_def)

lemma example_events_slow:
  "collectPosts (example_env slow_service)
     [example_item ''ai1ec_event'' ''7'', example_item ''ai1ec_event'' ''8'']
     [''ai1ec_event''] config = Inl AbortError"
  unfolding collectPosts_def collectPosts_from.simps
    example_selected [where type = "''ai1ec_event''" and ids = "[''7'', ''8'']", simplified]
  by (simp add: example_run slow_service_def)

lemma example_event_types:
  "getPostTypes [example_item ''ai1ec_event'' ''7'', example_item ''ai1ec_event'' ''8'']
     example_config = Inr [''ai1ec_event'']"
  by (simp add: getPostTypes_def items_of_def example_config_def example_item_def index0_def
      bind_res_def excluded_types_def new_Set_def set_add_def)

lemma example_missing_id_selected:
  "bind_res (getItemsOfType example_posts_missing_id ''post'') (filter_res not_trash_or_draft)
     = Inr example_posts_missing_id"
  by (simp add: example_posts_missing_id_def getItemsOfType_def items_of_def
      not_trash_or_draft_def example_item_def index0_def bind_res_def)

lemma example_missing_id:
  "collectPosts (example_env service) example_posts_missing_id [''post''] config
     = Inl TypeError"
  unfolding collectPosts_def collectPosts_from.simps example_missing_id_selected
  by (simp add: example_posts_missing_id_def extract_post_no_id example_run)

lemma example_with_id:
  "map_sum id (map (\<lambda>q. meta_id (meta q)))
     (collectPosts (example_env service) [example_item ''post'' ''2''] [''post''] config)
     = Inr [''2'']"
  unfolding collectPosts_def collectPosts_from.simps
    example_selected [where type = "''post''" and ids = "[''2'']", simplified]
  by (simp add: example_run)

subsection \<open>Failures of the enrichment\<close>

text \<open>
  C1 as the specification states it does not hold. With two published events and a
  service whose network fails for event 7, \<^verbatim>\<open>collectPosts\<close> is rejected with the error of
  the request and returns no post at all, event 8 included; the same when the request
  for event 7 takes longer than the 10 s of the timer. Event 7 is not retained, and the
  failure reaches the caller.
\<close>

theorem collectPosts_fetch_failure_counterexample:
  "collectPosts (example_env failing_service)
     [example_item ''ai1ec_event'' ''7'', example_item ''ai1ec_event'' ''8'']
     [''ai1ec_event''] example_config = Inl FetchError \<and>
   collectPosts (example_env slow_service)
     [example_item ''ai1ec_event'' ''7'', example_item ''ai1ec_event'' ''8'']
     [''ai1ec_event''] example_config = Inl AbortError \<and>
   parseFilePromise (example_env failing_service) example_config
     [example_item ''ai1ec_event'' ''7'', example_item ''ai1ec_event'' ''8'']
     = Inl FetchError"
  by (simp add: example_events_failing example_events_slow parseFilePromise_def
      example_event_types bind_res_def)

text \<open>
  C1, amended. For a selected event post whose request fails on the network or is
  aborted by the timer of 10 s, the promise of the post is rejected and \<^verbatim>\<open>collectPosts\<close>
  is rejected with it: the caller gets an error and no list. A post is kept with its
  frontmatter as extracted, without the event keys, when the response arrives in time
  and is not OK or carries no \<^verbatim>\<open>event_data\<close>.
\<close>

theorem collectPosts_fetch_failure_rejects:
  assumes "p \<in> set data" and "post_type p = Some ''ai1ec_event''"
    and "''ai1ec_event'' \<in> set postTypes"
    and "status p = Some s" and "s \<noteq> ''trash''" and "s \<noteq> ''draft''"
    and "post_id p = Some i"
    and "fetch env (''https://dssg.fas.harvard.edu/wp-json/wp/v2/events/'' @ i)
           = (latency, response)"
  shows "(10000 \<le> latency \<or> response = NetworkFailure \<longrightarrow>
            (\<exists>e. collectPosts env data postTypes config = Inl e)) \<and>
         (latency < 10000 \<and> (response = HttpNotOk \<or> response = Body Falsy_metadata \<or>
              response = Body (Metadata None)) \<longrightarrow>
            outcome (processPost env config ''ai1ec_event'' now index p)
              = bind_res (extract_post env ''ai1ec_event'' p)
                  (\<lambda>(m, f). finish env config p m f))"
proof (intro conjI impI)
  assume f: "10000 \<le> latency \<or> response = NetworkFailure"
  have sel: "selectable ''ai1ec_event'' p" using assms by (simp add: selectable_def)
  from post_outcome_fetch_failed [OF assms(7) assms(8) f]
  obtain e where out: "post_outcome env config ''ai1ec_event'' p = Inl e" by blast
  from collectPosts_from_rejected [OF assms(3) assms(1) sel out, of 0 "[]"]
  show "\<exists>e. collectPosts env data postTypes config = Inl e"
    by (auto simp: collectPosts_def)
next
  assume r: "latency < 10000 \<and> (response = HttpNotOk \<or> response = Body Falsy_metadata \<or>
              response = Body (Metadata None))"
  show "outcome (processPost env config ''ai1ec_event'' now index p)
          = bind_res (extract_post env ''ai1ec_event'' p) (\<lambda>(m, f). finish env config p m f)"
  proof (cases "extract_post env ''ai1ec_event'' p")
    case (Inl e)
    then show ?thesis by (simp add: outcome_processPost post_outcome_def bind_res_def)
  next
    case (Inr mf)
    obtain m f where mf: "mf = (m, f)" by (cases mf)
    with Inr have "meta_id m = i" using extract_post_meta_id assms(7) by fastforce
    with r assms(8)
    have "\<exists>md. snd (getEventMetadata env (meta_id m) 0) = Inr md \<and> \<not> has_event_data md"
      by (auto simp: getEventMetadata_def has_event_data_def)
    with Inr mf show ?thesis
      by (auto simp: outcome_processPost post_outcome_def bind_res_def)
  qed
qed

text \<open>Witness for C1: event 7 with the service whose network fails for it, and with
  the service that answers with a status that is not OK.\<close>

theorem collectPosts_fetch_failure_rejects_witness:
  "example_item ''ai1ec_event'' ''7'' \<in> set example_events \<and>
   post_type (example_item ''ai1ec_event'' ''7'') = Some ''ai1ec_event'' \<and>
   status (example_item ''ai1ec_event'' ''7'') = Some ''publish'' \<and>
   post_id (example_item ''ai1ec_event'' ''7'') = Some ''7'' \<and>
   fetch (example_env failing_service) (''https://dssg.fas.harvard.edu/wp-json/wp/v2/events/'' @ ''7'')
     = (100, NetworkFailure) \<and>
   (\<exists>e. collectPosts (example_env failing_service) example_events [''ai1ec_event'']
          example_config = Inl e) \<and>
   fetch (example_env not_ok_service) (''https://dssg.fas.harvard.edu/wp-json/wp/v2/events/'' @ ''7'')
     = (100, HttpNotOk) \<and>
   map_sum id (\<lambda>q. fm_event (frontmatter q))
     (outcome (processPost (example_env not_ok_service) example_config ''ai1ec_event'' 0 0
        (example_item ''ai1ec_event'' ''7''))) = Inr None"
proof -
  let ?p = "example_item ''ai1ec_event'' ''7''"
  have 1: "?p \<in> set example_events" by (simp add: example_events_def)
  have 2: "post_type ?p = Some ''ai1ec_event''" by (simp add: example_item_def)
  have 3: "''ai1ec_event'' \<in> set [''ai1ec_event'']" by simp
  have 4: "status ?p = Some ''publish''" by (simp add: example_item_def)
  have 5: "''publish'' \<noteq> ''trash''" "''publish'' \<noteq> ''draft''" by simp_all
  have 6: "post_id ?p = Some ''7''" by (simp add: example_item_def)
  have 7: "fetch (example_env failing_service)
      (''https://dssg.fas.harvard.edu/wp-json/wp/v2/events/'' @ ''7'') = (100, NetworkFailure)"
    by (simp add: example_env_def failing_service_def)
  have 8: "fetch (example_env not_ok_service)
      (''https://dssg.fas.harvard.edu/wp-json/wp/v2/events/'' @ ''7'') = (100, HttpNotOk)"
    by (simp add: example_env_def not_ok_service_def)
  have a: "\<exists>e. collectPosts (example_env failing_service) example_events [''ai1ec_event'']
      example_config = Inl e"
    using collectPosts_fetch_failure_rejects [OF 1 2 3 4 5 6 7] by simp
  have "outcome (processPost (example_env not_ok_service) example_config ''ai1ec_event'' 0 0 ?p)
      = bind_res (extract_post (example_env not_ok_service) ''ai1ec_event'' ?p)
          (\<lambda>(m, f). finish (example_env not_ok_service) example_config ?p m f)"
    using collectPosts_fetch_failure_rejects [OF 1 2 3 4 5 6 8] by simp
  moreover have "map_sum id (\<lambda>q. fm_event (frontmatter q))
      (bind_res (extract_post (example_env not_ok_service) ''ai1ec_event'' ?p)
         (\<lambda>(m, f). finish (example_env not_ok_service) example_config ?p m f)) = Inr None"
    by (simp add: example_extract example_finish bind_res_def)
  ultimately have b: "map_sum id (\<lambda>q. fm_event (frontmatter q))
     (outcome (processPost (example_env not_ok_service) example_config ''ai1ec_event'' 0 0 ?p))
     = Inr None"
    by simp
  from 1 2 4 6 7 8 a b show ?thesis by blast
qed

subsection \<open>Items without an id\<close>

text \<open>
  C2 as the specification states it does not hold. Of two published posts the first
  has no \<^verbatim>\<open>post_id\<close>: \<^verbatim>\<open>collectPosts\<close> and the whole run end with the \<^verbatim>\<open>TypeError\<close> of reading
  \<^verbatim>\<open>post.post_id[0]\<close>. The second post, which alone is collected without error, is not
  returned, and nothing counts the skipped record.
\<close>

theorem collectPosts_missing_id_counterexample:
  "collectPosts (example_env example_service) example_posts_missing_id [''post'']
     example_config = Inl TypeError \<and>
   parseFilePromise (example_env example_service)
     (example_config\<lparr>includeOtherTypes := False\<rparr>) example_posts_missing_id = Inl TypeError \<and>
   map_sum id (map (\<lambda>q. meta_id (meta q)))
     (collectPosts (example_env example_service) (tl example_posts_missing_id) [''post'']
        example_config) = Inr [''2'']"
proof -
  have "getPostTypes example_posts_missing_id (example_config\<lparr>includeOtherTypes := False\<rparr>)
      = Inr [''post'']"
    by (simp add: getPostTypes_def example_config_def)
  then have "parseFilePromise (example_env example_service)
      (example_config\<lparr>includeOtherTypes := False\<rparr>) example_posts_missing_id = Inl TypeError"
    by (simp add: parseFilePromise_def example_missing_id bind_res_def)
  moreover have "tl example_posts_missing_id = [example_item ''post'' ''2'']"
    by (simp add: example_posts_missing_id_def)
  ultimately show ?thesis
    by (simp add: example_missing_id example_with_id)
qed

text \<open>
  C2, amended. An item that is selected for extraction (its type is among the post
  types, its status neither trash nor draft) and has no \<^verbatim>\<open>post_id\<close> makes \<^verbatim>\<open>collectPosts\<close>
  fail, and with it the run: no record is returned and none is skipped.
\<close>

theorem collectPosts_missing_id_aborts:
  assumes "p \<in> set data" and "post_type p = Some postType" and "postType \<in> set postTypes"
    and "status p = Some s" and "s \<noteq> ''trash''" and "s \<noteq> ''draft''"
    and "post_id p = None"
  shows "(\<exists>e. collectPosts env data postTypes config = Inl e) \<and>
         (getPostTypes data config = Inr postTypes \<longrightarrow>
            (\<exists>e. parseFilePromise env config data = Inl e))"
proof -
  have sel: "selectable postType p" using assms by (simp add: selectable_def)
  have out: "post_outcome env config postType p = Inl TypeError"
    using assms(7) by (rule post_outcome_no_id)
  from collectPosts_from_rejected [OF assms(3) assms(1) sel out, of 0 "[]"]
  have c: "\<exists>e. collectPosts env data postTypes config = Inl e"
    by (auto simp: collectPosts_def)
  then show ?thesis by (auto simp: parseFilePromise_def bind_res_def)
qed

text \<open>Witness for C2: the two posts of the counterexample, in a run for the type
  \<open>post\<close> alone.\<close>

theorem collectPosts_missing_id_aborts_witness:
  "hd example_posts_missing_id \<in> set example_posts_missing_id \<and>
   post_type (hd example_posts_missing_id) = Some ''post'' \<and>
   status (hd example_posts_missing_id) = Some ''publish'' \<and>
   post_id (hd example_posts_missing_id) = None \<and>
   getPostTypes example_posts_missing_id (example_config\<lparr>includeOtherTypes := False\<rparr>)
     = Inr [''post''] \<and>
   (\<exists>e. collectPosts (example_env example_service) example_posts_missing_id [''post'']
          (example_config\<lparr>includeOtherTypes := False\<rparr>) = Inl e) \<and>
   (\<exists>e. parseFilePromise (example_env example_service)
          (example_config\<lparr>includeOtherTypes := False\<rparr>) example_posts_missing_id = Inl e)"
proof -
  let ?p = "hd example_posts_missing_id"
  let ?c = "example_config\<lparr>includeOtherTypes := False\<rparr>"
  have 1: "?p \<in> set example_posts_missing_id" by (simp add: example_posts_missing_id_def)
  have 2: "post_type ?p = Some ''post''"
    by (simp add: example_posts_missing_id_def example_item_def)
  have 3: "''post'' \<in> set [''post'']" by simp
  have 4: "status ?p = Some ''publish''"
    by (simp add: example_posts_missing_id_def example_item_def)
  have 5: "''publish'' \<noteq> ''trash''" "''publish'' \<noteq> ''draft''" by simp_all
  have 6: "post_id ?p = None" by (simp add: example_posts_missing_id_def example_item_def)
  have 7: "getPostTypes example_posts_missing_id ?c = Inr [''post'']"
    by (simp add: getPostTypes_def example_config_def)
  note t = collectPosts_missing_id_aborts [OF 1 2 3 4 5 6,
      of "example_env example_service" ?c]
  from t have a: "\<exists>e. collectPosts (example_env example_service) example_posts_missing_id
      [''post''] ?c = Inl e"
    by blast
  from t 7 have b: "\<exists>e. parseFilePromise (example_env example_service) ?c
      example_posts_missing_id = Inl e"
    by blast
  from 1 2 4 6 7 a b show ?thesis by blast
qed

subsection \<open>The delay before a post is processed\<close>

lemma started_at_processPost:
  "started_at (processPost env config postType now index p)
     = (if index \<noteq> 0 then now + 5000 else now)"
  by (simp add: processPost_def delay_def Let_def split: sum.splits prod.splits)

lemma request_at_processPost:
  "request_at (processPost env config postType now index p)
     = (if postType = ''ai1ec_event'' \<and> (\<exists>m f. extract_post env postType p = Inr (m, f))
        then Some (started_at (processPost env config postType now index p)) else None)"
  by (auto simp: processPost_def delay_def Let_def split: sum.splits prod.splits)

text \<open>
  C3 as the specification states it does not hold. The second of two posts of the type
  \<open>post\<close> is delayed by 5000 ms, as a post of the event type is: the delay stands before
  the test of the type. And the requests for three events are sent at 0 ms, 5000 ms
  and 5000 ms, the second and the third at the same instant: \<^verbatim>\<open>map\<close> calls every callback
  at once, so the delay that is meant to pace the requests ("wait for a bit before
  processing this post if it's not the first one") does not set them 5000 ms apart.
\<close>

theorem postsPromises_spacing_counterexample:
  "map request_at
     (postsPromises (example_env example_service) example_config ''ai1ec_event'' 0
        example_events) = [Some 0, Some 5000, Some 5000] \<and>
   map started_at
     (postsPromises (example_env example_service) example_config ''post'' 0
        [example_item ''post'' ''1'', example_item ''post'' ''2'']) = [0, 5000]"
  by (simp add: example_run example_events_def)

text \<open>
  C3, amended. The delay belongs to the posts of every type, the event type or another.
  In the batch of a type that begins at \<open>now\<close>, the first post is processed at once, and
  no other post is processed before 5000 ms have passed; when a post is processed does
  not depend on its type. A request is sent for posts of the event type only, at the
  moment the post is processed, and for each such post whose fields can be extracted.
  How far apart the requests of consecutive posts are sent is no part of this
  statement.
\<close>

theorem postsPromises_delay_every_type:
  assumes "i < length postsForType"
  shows "(i = 0 \<longrightarrow> started_at (postsPromises env config postType now postsForType ! i) = now) \<and>
         (i \<noteq> 0 \<longrightarrow>
            now + 5000 \<le> started_at (postsPromises env config postType now postsForType ! i)) \<and>
         started_at (postsPromises env config postType now postsForType ! i)
           = started_at (postsPromises env config postType' now postsForType ! i) \<and>
         request_at (postsPromises env config postType now postsForType ! i)
           = (if postType = ''ai1ec_event'' \<and>
                 (\<exists>m f. extract_post env postType (postsForType ! i) = Inr (m, f))
              then Some (started_at (postsPromises env config postType now postsForType ! i))
              else None)"
proof -
  have n: "postsPromises env config t now postsForType ! i
      = processPost env config t now i (postsForType ! i)" for t
    using assms by (rule nth_postsPromises)
  show ?thesis
    unfolding n by (simp add: started_at_processPost request_at_processPost [symmetric])
qed

text \<open>Witness for C3: the second of two posts of the type \<open>post\<close>.\<close>

theorem postsPromises_delay_every_type_witness:
  "(1::nat) < length [example_item ''post'' ''1'', example_item ''post'' ''2''] \<and>
   5000 \<le> started_at (postsPromises (example_env example_service) example_config ''post'' 0
      [example_item ''post'' ''1'', example_item ''post'' ''2''] ! 1) \<and>
   request_at (postsPromises (example_env example_service) example_config ''post'' 0
      [example_item ''post'' ''1'', example_item ''post'' ''2''] ! 1) = None"
proof -
  let ?ps = "[example_item ''post'' ''1'', example_item ''post'' ''2'']"
  have l: "(1::nat) < length ?ps" by simp
  from postsPromises_delay_every_type [OF l, where now = 0 and postType = "''post''"
      and postType' = "''post''" and env = "example_env example_service"
      and config = example_config]
  have "5000 \<le> started_at (postsPromises (example_env example_service) example_config
      ''post'' 0 ?ps ! 1) \<and>
    request_at (postsPromises (example_env example_service) example_config ''post'' 0 ?ps ! 1)
      = None"
    by simp
  with l show ?thesis by blast
qed

subsection \<open>Lists of results\<close>


lemma map_res_all:
  "map_res f xs = Inr ys \<Longrightarrow> (\<And>x y. f x = Inr y \<Longrightarrow> Q y) \<Longrightarrow> \<forall>y \<in> set ys. Q y"
  by (induction xs arbitrary: ys) (auto split: sum.splits)





subsection \<open>The two address compositions\<close>

lemma trim_Nil [simp]: "trim [] = []"
  by (simp add: trim_def)

lemma valid_components:
  "\<forall>c \<in> set cs. \<exists>b. valid_component c = Inr b \<Longrightarrow>
   map to_String (filter (\<lambda>c. valid_component c = Inr True) cs) = concat (map nonblank cs)"
proof (induction cs)
  case Nil
  then show ?case by simp
next
  case (Cons c cs)
  then have "map to_String (filter (\<lambda>c. valid_component c = Inr True) [c]) = nonblank c"
    by (cases c) (auto simp: valid_component_def truthy_def nonblank_def split: if_splits)
  with Cons show ?case by (auto split: if_splits)
qed

lemma getAddress_v1_strict:
  "getAddress_v1 (Metadata (Some ed)) = Inr a \<Longrightarrow> a = strict_address ed"
proof -
  assume a: "getAddress_v1 (Metadata (Some ed)) = Inr a"
  let ?cs = "[address ed, city ed, province ed, postal_code ed]"
  from a obtain vs where f: "filter_res valid_component ?cs = Inr vs"
    and j: "a = join '', '' (map to_String vs)"
    by (auto simp: getAddress_v1_def the_event_data_def bind_res_def Let_def split: sum.splits)
  from f have "\<forall>c \<in> set ?cs. \<exists>b. valid_component c = Inr b"
    using filter_res_total [of valid_component ?cs] by blast
  moreover from f have "vs = filter (\<lambda>c. valid_component c = Inr True) ?cs"
    by (rule filter_res_Inr)
  ultimately have "map to_String vs = concat (map nonblank ?cs)"
    using valid_components [of ?cs] by simp
  with j show ?thesis by (simp add: strict_address_def)
qed

lemma finish_frontmatter:
  "finish env config p m f = Inr q \<Longrightarrow> frontmatter q = f \<and> meta q = m"
  by (auto simp: finish_def bind_res_def split: sum.splits)

subsection \<open>What the image pattern captures\<close>












subsection \<open>Posts as collected, images as scraped\<close>

lemma scrape_post_ids:
  "scrape_post env p = Inr xs \<Longrightarrow> \<forall>a \<in> set xs. asset_id a = JNum (- 1)"
proof -
  assume a: "scrape_post env p = Inr xs"
  then obtain i postLink srcs where
    "map_res (\<lambda>src. bind_res (new_URL env src postLink)
        (\<lambda>u. Inr \<lparr>asset_id = JNum (- 1), postId = i, url = u\<rparr>)) srcs = Inr xs"
    by (auto simp: scrape_post_def bind_res_def index0_def split: sum.splits option.splits)
  then show ?thesis
    by (rule map_res_all) (auto simp: bind_res_def split: sum.splits)
qed

lemma collectScrapedImages_ids:
  assumes "collectScrapedImages env data postTypes = Inr images"
  shows "\<forall>a \<in> set images. asset_id a = JNum (- 1)"
proof -
  from assms obtain xsss where m: "map_res (\<lambda>postType. bind_res (getItemsOfType data postType)
        (map_res (scrape_post env))) postTypes = Inr xsss"
    and i: "images = concat (concat xsss)"
    by (auto simp: collectScrapedImages_def bind_res_def split: sum.splits)
  have "\<forall>xss \<in> set xsss. \<forall>xs \<in> set xss. \<forall>a \<in> set xs. asset_id a = JNum (- 1)"
  proof (rule map_res_all [OF m])
    fix t xss
    assume "bind_res (getItemsOfType data t) (map_res (scrape_post env)) = Inr xss"
    then obtain items where "map_res (scrape_post env) items = Inr xss"
      by (auto simp: bind_res_def split: sum.splits)
    then show "\<forall>xs \<in> set xss. \<forall>a \<in> set xs. asset_id a = JNum (- 1)"
      by (rule map_res_all) (rule scrape_post_ids)
  qed
  with i show ?thesis by auto
qed

lemma getPostCoverImageId_shape:
  "getPostCoverImageId p = Inr c \<Longrightarrow> c = JUndefined \<or> (\<exists>v. c = JStr v)"
  by (auto simp: getPostCoverImageId_def bind_res_def index0_def
      split: option.splits sum.splits)

lemma extract_post_fresh:
  assumes "extract_post env postType p = Inr (m, f)"
  shows "(coverImageId m = JUndefined \<or> (\<exists>v. coverImageId m = JStr v)) \<and> imageUrls m = [] \<and>
         fm_coverImage f = None"
proof -
  from assms obtain c where "getPostCoverImageId p = Inr c" "coverImageId m = c" "imageUrls m = []"
    by (auto simp: extract_post_def make_meta_def bind_res_def split: sum.splits)
  moreover from assms have "fm_coverImage f = None"
    by (auto simp: extract_post_def make_frontmatter_def bind_res_def split: sum.splits)
  ultimately show ?thesis using getPostCoverImageId_shape by blast
qed

lemma enrich_coverImage: "enrich md f = Inr f' \<Longrightarrow> fm_coverImage f' = fm_coverImage f"
  by (auto simp: enrich_def bind_res_def split: sum.splits)

lemma post_outcome_fresh:
  assumes "post_outcome env config postType p = Inr q"
  shows "(coverImageId (meta q) = JUndefined \<or> (\<exists>v. coverImageId (meta q) = JStr v)) \<and>
         imageUrls (meta q) = [] \<and> fm_coverImage (frontmatter q) = None"
proof -
  from assms obtain m f where e: "extract_post env postType p = Inr (m, f)"
    by (auto simp: post_outcome_def split: sum.splits)
  with assms obtain f' where "finish env config p m f' = Inr q"
    and "fm_coverImage f' = fm_coverImage f"
    by (auto simp: post_outcome_def bind_res_def split: sum.splits if_splits
        dest: enrich_coverImage)
  then show ?thesis using extract_post_fresh [OF e] finish_frontmatter by fastforce
qed

lemma collectPosts_fresh:
  assumes "collectPosts env data postTypes config = Inr posts"
  shows "\<forall>q \<in> set posts. (coverImageId (meta q) = JUndefined \<or> (\<exists>v. coverImageId (meta q) = JStr v)) \<and>
         imageUrls (meta q) = [] \<and> fm_coverImage (frontmatter q) = None"
proof -
  obtain t where "collectPosts_from env config data 0 postTypes [] = (t, Inr posts)"
    using assms by (cases "collectPosts_from env config data 0 postTypes []")
      (simp add: collectPosts_def)
  then show ?thesis
    by (rule collectPosts_from_invariant [rotated 2]) (auto dest: post_outcome_fresh)
qed

lemma parseFilePromise_Inr:
  assumes "parseFilePromise env config data = Inr result"
  obtains postTypes posts attached scraped where
    "collectPosts env data postTypes config = Inr posts"
    "(if saveAttachedImages config then collectAttachedImages data else Inr []) = Inr attached"
    "(if saveScrapedImages config then collectScrapedImages env data postTypes else Inr [])
       = Inr scraped"
    "result = mergeImagesIntoPosts (attached @ scraped) posts"
  using assms unfolding parseFilePromise_def bind_res_def
  by (auto split: sum.splits)

lemma no_rule_B:
  "asset_id a = JNum (- 1) \<Longrightarrow> coverImageId (meta q) = JUndefined \<or> (\<exists>v. coverImageId (meta q) = JStr v) \<Longrightarrow>
   \<not> rule_B a q"
  by (auto simp: rule_B_def)

subsection \<open>More of the worked examples\<close>

lemma example_strict: "strict_address example_event_data = ''12 Oxford St, MA, 02138''"
  by (simp add: strict_address_def example_event_data_def nonblank_def trim_def
      js_whitespace_def)

lemma example_event:
  "processPost (example_env example_service) config ''ai1ec_event'' now index
     (example_item ''ai1ec_event'' i) =
   \<lparr>started_at = (if index \<noteq> 0 then now + 5000 else now),
     request_at = Some (if index \<noteq> 0 then now + 5000 else now),
     settled_at = (if index \<noteq> 0 then now + 5000 else now) + 100,
     outcome = Inr ((example_collected ''ai1ec_event'' i)
       \<lparr>frontmatter := (frontmatter (example_collected ''ai1ec_event'' i))
          \<lparr>fm_event := Some \<lparr>fm_start_datetime = JStr ''2020-02-01T18:00:00'',
              fm_end_datetime = JStr ''2020-02-01T20:00:00'', fm_venue = JStr ''Hall'',
              fm_address = ''12 Oxford St, , MA, 02138'', fm_ical_source_url = JNull\<rparr>\<rparr>\<rparr>)\<rparr>"
  by (simp add: example_run example_collected_def Let_def)

lemma example_event_v1:
  "processPost_v1 (example_env service) (\<lambda>i. Metadata (Some example_event_data)) config
     ''ai1ec_event'' (example_item ''ai1ec_event'' i) =
   Inr ((example_collected ''ai1ec_event'' i)
       \<lparr>frontmatter := (frontmatter (example_collected ''ai1ec_event'' i))
          \<lparr>fm_event := Some \<lparr>fm_start_datetime = JStr ''2020-02-01T18:00:00'',
              fm_end_datetime = JStr ''2020-02-01T20:00:00'', fm_venue = JStr ''Hall'',
              fm_address = ''12 Oxford St, MA, 02138'', fm_ical_source_url = JNull\<rparr>\<rparr>\<rparr>)"
  by (simp add: processPost_v1_def example_extract example_finish enrich_v1_def
      the_event_data_def getAddress_v1_def valid_component_def truthy_def trim_def
      js_whitespace_def bind_res_def example_event_data_def example_collected_def)

lemma example_collect:
  "collectPosts (example_env service) [example_item ''post'' i] [''post''] config
     = Inr [example_collected ''post'' i]"
  unfolding collectPosts_def collectPosts_from.simps
    example_selected [where type = "''post''" and ids = "[i]", simplified]
  by (simp add: example_run example_collected_def)

lemma example_scraped:
  "collectScrapedImages (example_env service) [example_item type i] [type] =
     Inr [\<lparr>asset_id = JNum (- 1), postId = i, url = ''https://site.test/post/img/x.jpg''\<rparr>]"
  by (simp add: collectScrapedImages_def getItemsOfType_def items_of_def scrape_post_def
      example_item_def example_env_def index0_def bind_res_def example_scan example_url)

lemma example_parse:
  "saveScrapedImages config \<Longrightarrow>
   parseFilePromise (example_env service) config [example_item ''post'' i] =
     Inr [(example_collected ''post'' i)
            \<lparr>meta := (meta (example_collected ''post'' i))
               \<lparr>imageUrls := [''https://site.test/post/img/x.jpg'']\<rparr>\<rparr>]"
proof -
  assume s: "saveScrapedImages config"
  have t: "getPostTypes [example_item ''post'' i] config = Inr [''post'']"
    by (simp add: getPostTypes_def items_of_def example_item_def index0_def bind_res_def
        excluded_types_def new_Set_def set_add_def)
  have a: "collectAttachedImages [example_item ''post'' i] = Inr []"
    by (simp add: collectAttachedImages_def getItemsOfType_def items_of_def example_item_def
        index0_def bind_res_def)
  show ?thesis
    using s
    by (simp add: parseFilePromise_def t a example_collect example_scraped bind_res_def
        mergeImagesIntoPosts_def merge_image_def example_collected_def)
qed

subsection \<open>The composed address\<close>

text \<open>
  C7 as the specification states it does not hold. The variant of the parser that
  fetches the event data composes the address with a template literal of all four
  components: an event with an empty city gets \<open>12 Oxford St, , MA, 02138\<close>, with the
  blank component in it, where the strict composition gives \<open>12 Oxford St, MA, 02138\<close>.
\<close>

theorem address_composition_counterexample:
  "map_sum id (map (\<lambda>q. map_option fm_address (fm_event (frontmatter q))))
     (collectPosts (example_env example_service) [example_item ''ai1ec_event'' ''7'']
        [''ai1ec_event''] example_config) = Inr [Some ''12 Oxford St, , MA, 02138''] \<and>
   strict_address example_event_data = ''12 Oxford St, MA, 02138''"
proof -
  have "collectPosts (example_env example_service) [example_item ''ai1ec_event'' ''7'']
      [''ai1ec_event''] example_config
    = Inr [(example_collected ''ai1ec_event'' ''7'')
       \<lparr>frontmatter := (frontmatter (example_collected ''ai1ec_event'' ''7''))
          \<lparr>fm_event := Some \<lparr>fm_start_datetime = JStr ''2020-02-01T18:00:00'',
              fm_end_datetime = JStr ''2020-02-01T20:00:00'', fm_venue = JStr ''Hall'',
              fm_address = ''12 Oxford St, , MA, 02138'', fm_ical_source_url = JNull\<rparr>\<rparr>\<rparr>]"
    unfolding collectPosts_def collectPosts_from.simps
      example_selected [where type = "''ai1ec_event''" and ids = "[''7'']", simplified]
    by (simp add: postsPromises_def example_event promise_all_def)
  then show ?thesis by (simp add: example_strict)
qed

text \<open>
  C7, amended. In the variant of the parser that reads \<^verbatim>\<open>events.json\<close> (lines 1 to 282)
  the address of an enriched post is the strict composition: address, city, province
  and postal code joined with \<^verbatim>\<open>", "\<close>, the blank ones omitted. In the variant that
  fetches (lines 283 to 573) it is all four components joined with \<^verbatim>\<open>", "\<close>, blank or not.
\<close>

theorem address_composition:
  "(processPost_v1 env eventsData config ''ai1ec_event'' p = Inr q \<and> post_id p = Some i \<and>
    eventsData i = Metadata (Some ed) \<longrightarrow>
      map_option fm_address (fm_event (frontmatter q)) = Some (strict_address ed)) \<and>
   (outcome (processPost env config ''ai1ec_event'' now index p) = Inr q \<and> post_id p = Some i \<and>
    fetch env (''https://dssg.fas.harvard.edu/wp-json/wp/v2/events/'' @ i)
      = (latency, Body (Metadata (Some ed))) \<longrightarrow>
      map_option fm_address (fm_event (frontmatter q)) =
        Some (to_String (address ed) @ '', '' @ to_String (city ed) @ '', '' @
              to_String (province ed) @ '', '' @ to_String (postal_code ed)))"
proof (intro conjI impI)
  assume a: "processPost_v1 env eventsData config ''ai1ec_event'' p = Inr q \<and> post_id p = Some i \<and>
    eventsData i = Metadata (Some ed)"
  then obtain m f f' where e: "extract_post env ''ai1ec_event'' p = Inr (m, f)"
    and en: "enrich_v1 (eventsData (meta_id m)) f = Inr f'"
    and fi: "finish env config p m f' = Inr q"
    by (auto simp: processPost_v1_def bind_res_def Let_def split: sum.splits if_splits
        dest: extract_post_meta_id)
  from e a have "meta_id m = i" using extract_post_meta_id by fastforce
  with en a obtain ad where "getAddress_v1 (Metadata (Some ed)) = Inr ad"
    and "map_option fm_address (fm_event f') = Some ad"
    by (auto simp: enrich_v1_def bind_res_def the_event_data_def split: sum.splits)
  then show "map_option fm_address (fm_event (frontmatter q)) = Some (strict_address ed)"
    using fi getAddress_v1_strict finish_frontmatter by fastforce
next
  assume a: "outcome (processPost env config ''ai1ec_event'' now index p) = Inr q \<and>
    post_id p = Some i \<and>
    fetch env (''https://dssg.fas.harvard.edu/wp-json/wp/v2/events/'' @ i)
      = (latency, Body (Metadata (Some ed)))"
  then have o: "post_outcome env config ''ai1ec_event'' p = Inr q"
    by (simp add: outcome_processPost)
  then obtain m f where e: "extract_post env ''ai1ec_event'' p = Inr (m, f)"
    by (auto simp: post_outcome_def split: sum.splits)
  with a have i: "meta_id m = i" using extract_post_meta_id by fastforce
  with a o e have g: "snd (getEventMetadata env (meta_id m) 0) = Inr (Metadata (Some ed))"
    by (auto simp: getEventMetadata_def post_outcome_def split: if_splits)
  with o e obtain f' where en: "enrich (Metadata (Some ed)) f = Inr f'"
    and fi: "finish env config p m f' = Inr q"
    by (auto simp: post_outcome_def has_event_data_def bind_res_def split: sum.splits)
  from en have "map_option fm_address (fm_event f') =
        Some (to_String (address ed) @ '', '' @ to_String (city ed) @ '', '' @
              to_String (province ed) @ '', '' @ to_String (postal_code ed))"
    by (auto simp: enrich_def getAddress_def the_event_data_def bind_res_def)
  with fi show "map_option fm_address (fm_event (frontmatter q)) =
        Some (to_String (address ed) @ '', '' @ to_String (city ed) @ '', '' @
              to_String (province ed) @ '', '' @ to_String (postal_code ed))"
    using finish_frontmatter by fastforce
qed

text \<open>Witness for C7: event 7 with the event data of the examples, whose city is
  empty, in both variants.\<close>

theorem address_composition_witness:
  "post_id (example_item ''ai1ec_event'' ''7'') = Some ''7'' \<and>
   (\<exists>q. processPost_v1 (example_env example_service) (\<lambda>i. Metadata (Some example_event_data))
           example_config ''ai1ec_event'' (example_item ''ai1ec_event'' ''7'') = Inr q \<and>
        map_option fm_address (fm_event (frontmatter q)) = Some ''12 Oxford St, MA, 02138'') \<and>
   fetch (example_env example_service)
     (''https://dssg.fas.harvard.edu/wp-json/wp/v2/events/'' @ ''7'')
     = (100, Body (Metadata (Some example_event_data))) \<and>
   (\<exists>q. outcome (processPost (example_env example_service) example_config ''ai1ec_event'' 0 0
           (example_item ''ai1ec_event'' ''7'')) = Inr q \<and>
        map_option fm_address (fm_event (frontmatter q)) = Some ''12 Oxford St, , MA, 02138'')"
proof -
  let ?p = "example_item ''ai1ec_event'' ''7''"
  let ?env = "example_env example_service"
  have 1: "post_id ?p = Some ''7''" by (simp add: example_item_def)
  obtain q1 where q1: "processPost_v1 ?env (\<lambda>i. Metadata (Some example_event_data))
      example_config ''ai1ec_event'' ?p = Inr q1"
    by (simp add: example_event_v1)
  have 2: "fetch ?env (''https://dssg.fas.harvard.edu/wp-json/wp/v2/events/'' @ ''7'')
      = (100, Body (Metadata (Some example_event_data)))"
    by (simp add: example_fetch example_service_def)
  obtain q2 where q2: "outcome (processPost ?env example_config ''ai1ec_event'' 0 0 ?p) = Inr q2"
    by (simp add: example_event)
  from address_composition [where env = ?env and config = example_config and p = ?p
      and eventsData = "\<lambda>i. Metadata (Some example_event_data)" and q = q1 and i = "''7''"
      and ed = example_event_data] q1 1
  have "map_option fm_address (fm_event (frontmatter q1))
      = Some (strict_address example_event_data)"
    by blast
  then have a: "map_option fm_address (fm_event (frontmatter q1)) = Some ''12 Oxford St, MA, 02138''"
    by (simp add: example_strict)
  from address_composition [where env = ?env and config = example_config and p = ?p
      and q = q2 and i = "''7''" and ed = example_event_data and now = 0 and index = 0
      and latency = 100] q2 1 2
  have "map_option fm_address (fm_event (frontmatter q2)) =
        Some (to_String (address example_event_data) @ '', '' @
              to_String (city example_event_data) @ '', '' @
              to_String (province example_event_data) @ '', '' @
              to_String (postal_code example_event_data))"
    by blast
  then have b: "map_option fm_address (fm_event (frontmatter q2)) = Some ''12 Oxford St, , MA, 02138''"
    by (simp add: example_event_data_def)
  from 1 2 q1 a q2 b show ?thesis by blast
qed

subsection \<open>The images scraped from a body\<close>



subsection \<open>The date of a post\<close>



subsection \<open>Scraped images and cover images\<close>

text \<open>
  C10. Every scraped image has the number \<open>-1\<close> as its id, and the \<open>coverImageId\<close> of
  every collected post is \<^verbatim>\<open>undefined\<close> or a string (the value of a \<^verbatim>\<open>_thumbnail_id\<close> entry).
  So a scraped image never satisfies rule B: merging it leaves the frontmatter of a
  post as it is, \<open>coverImage\<close> included, and attaches its URL only by rule A. A run that
  collects scraped images only sets no \<open>coverImage\<close> at all.
\<close>

theorem scraped_images_never_cover:
  "(collectScrapedImages env data postTypes = Inr images \<longrightarrow>
      (\<forall>a \<in> set images. asset_id a = JNum (- 1))) \<and>
   (collectPosts env data postTypes config = Inr posts \<longrightarrow>
      (\<forall>q \<in> set posts. coverImageId (meta q) = JUndefined \<or>
         (\<exists>v. coverImageId (meta q) = JStr v))) \<and>
   (asset_id a = JNum (- 1) \<and>
    (coverImageId (meta q) = JUndefined \<or> (\<exists>v. coverImageId (meta q) = JStr v)) \<longrightarrow>
      \<not> rule_B a q \<and> frontmatter (merge_image a q) = frontmatter q \<and>
      imageUrls (meta (merge_image a q)) =
        (if rule_A a q \<and> url a \<notin> set (imageUrls (meta q)) then imageUrls (meta q) @ [url a]
         else imageUrls (meta q))) \<and>
   (\<not> saveAttachedImages config \<and> parseFilePromise env config data = Inr result \<longrightarrow>
      (\<forall>q \<in> set result. fm_coverImage (frontmatter q) = None))"
proof (intro conjI impI)
  assume "collectScrapedImages env data postTypes = Inr images"
  then show "\<forall>a \<in> set images. asset_id a = JNum (- 1)" by (rule collectScrapedImages_ids)
next
  assume "collectPosts env data postTypes config = Inr posts"
  then show "\<forall>q \<in> set posts. coverImageId (meta q) = JUndefined \<or>
         (\<exists>v. coverImageId (meta q) = JStr v)"
    using collectPosts_fresh by blast
next
  assume a: "asset_id a = JNum (- 1) \<and>
    (coverImageId (meta q) = JUndefined \<or> (\<exists>v. coverImageId (meta q) = JStr v))"
  then have nb: "\<not> rule_B a q" using no_rule_B by blast
  then show "\<not> rule_B a q" .
  from nb show "frontmatter (merge_image a q) = frontmatter q"
    by (simp add: merge_image_def rule_B_def Let_def)
  from nb show "imageUrls (meta (merge_image a q)) =
        (if rule_A a q \<and> url a \<notin> set (imageUrls (meta q)) then imageUrls (meta q) @ [url a]
         else imageUrls (meta q))"
    by (simp add: merge_image_imageUrls set_add_def)
next
  assume a: "\<not> saveAttachedImages config \<and> parseFilePromise env config data = Inr result"
  then obtain postTypes' posts' scraped where
    c: "collectPosts env data postTypes' config = Inr posts'"
    and s: "(if saveScrapedImages config then collectScrapedImages env data postTypes' else Inr [])
       = Inr scraped"
    and r: "result = mergeImagesIntoPosts scraped posts'"
    by (auto elim!: parseFilePromise_Inr)
  from s have ids: "\<forall>a \<in> set scraped. asset_id a = JNum (- 1)"
    by (auto split: if_splits dest: collectScrapedImages_ids)
  show "\<forall>q \<in> set result. fm_coverImage (frontmatter q) = None"
  proof
    fix q
    assume "q \<in> set result"
    with r obtain q0 where q0: "q0 \<in> set posts'" and q: "q = merge_all scraped q0"
      by (auto simp: mergeImagesIntoPosts_map)
    from collectPosts_fresh [OF c] q0
    have f: "coverImageId (meta q0) = JUndefined \<or> (\<exists>v. coverImageId (meta q0) = JStr v)"
      and n: "fm_coverImage (frontmatter q0) = None"
      by auto
    from ids f have "filter (\<lambda>a. rule_B a q0) scraped = []"
      using no_rule_B by (auto simp: filter_empty_conv)
    with n q show "fm_coverImage (frontmatter q) = None"
      by (simp add: merge_all_coverImage)
  qed
qed

text \<open>Witness for C10: the post 8 of the examples and the image scraped from its body,
  in a run that collects scraped images only.\<close>

theorem scraped_images_never_cover_witness:
  "collectScrapedImages (example_env example_service) [example_item ''post'' ''8''] [''post'']
     = Inr [\<lparr>asset_id = JNum (- 1), postId = ''8'', url = ''https://site.test/post/img/x.jpg''\<rparr>] \<and>
   collectPosts (example_env example_service) [example_item ''post'' ''8''] [''post'']
     (example_config\<lparr>saveAttachedImages := False\<rparr>) = Inr [example_collected ''post'' ''8''] \<and>
   coverImageId (meta (example_collected ''post'' ''8'')) = JUndefined \<and>
   frontmatter (merge_image
       \<lparr>asset_id = JNum (- 1), postId = ''8'', url = ''https://site.test/post/img/x.jpg''\<rparr>
       (example_collected ''post'' ''8'')) = frontmatter (example_collected ''post'' ''8'') \<and>
   \<not> saveAttachedImages (example_config\<lparr>saveAttachedImages := False\<rparr>) \<and>
   parseFilePromise (example_env example_service) (example_config\<lparr>saveAttachedImages := False\<rparr>)
     [example_item ''post'' ''8''] =
     Inr [(example_collected ''post'' ''8'')
            \<lparr>meta := (meta (example_collected ''post'' ''8''))
               \<lparr>imageUrls := [''https://site.test/post/img/x.jpg'']\<rparr>\<rparr>] \<and>
   fm_coverImage (frontmatter ((example_collected ''post'' ''8'')
            \<lparr>meta := (meta (example_collected ''post'' ''8''))
               \<lparr>imageUrls := [''https://site.test/post/img/x.jpg'']\<rparr>\<rparr>)) = None"
proof -
  let ?env = "example_env example_service"
  let ?cfg = "example_config\<lparr>saveAttachedImages := False\<rparr>"
  let ?data = "[example_item ''post'' ''8'']"
  let ?a = "\<lparr>asset_id = JNum (- 1), postId = ''8'', url = ''https://site.test/post/img/x.jpg''\<rparr>"
  let ?q = "example_collected ''post'' ''8''"
  let ?r = "?q\<lparr>meta := (meta ?q)\<lparr>imageUrls := [''https://site.test/post/img/x.jpg'']\<rparr>\<rparr>"
  have 1: "collectScrapedImages ?env ?data [''post''] = Inr [?a]" by (rule example_scraped)
  have 2: "collectPosts ?env ?data [''post''] ?cfg = Inr [?q]" by (rule example_collect)
  have 3: "asset_id ?a = JNum (- 1)" by simp
  have 4: "coverImageId (meta ?q) = JUndefined" by (simp add: example_collected_def)
  have 5: "\<not> saveAttachedImages ?cfg" by simp
  have 6: "parseFilePromise ?env ?cfg ?data = Inr [?r]"
    by (rule example_parse) (simp add: example_config_def)
  note t = scraped_images_never_cover [of ?env ?data "[''post'']" "[?a]" ?cfg "[?q]" ?a ?q "[?r]"]
  from t 3 4 have a: "frontmatter (merge_image ?a ?q) = frontmatter ?q" by blast
  from t 5 6 have b: "fm_coverImage (frontmatter ?r) = None" by simp
  from 1 2 4 5 6 a b show ?thesis by blast
qed

subsection \<open>No URL twice\<close>

text \<open>
  C5. If the \<open>imageUrls\<close> of a post hold no URL twice before the merge, they hold none
  twice afterwards: they are the old list followed by the new URLs of the images that
  satisfy rule A or rule B, each URL once, in the order in which the images first bring
  them, also when an image satisfies both rules or a URL comes from an attachment and
  from a body. \<^verbatim>\<open>collectPosts\<close> starts every post with the empty list, so no post that
  \<^verbatim>\<open>parseFilePromise\<close> returns has a URL twice.
\<close>

theorem mergeImagesIntoPosts_no_duplicates:
  "(i < length posts \<and> distinct (imageUrls (meta (posts ! i))) \<longrightarrow>
      distinct (imageUrls (meta (mergeImagesIntoPosts images posts ! i))) \<and>
      imageUrls (meta (mergeImagesIntoPosts images posts ! i)) =
        imageUrls (meta (posts ! i)) @
        first_seen (filter (\<lambda>u. u \<notin> set (imageUrls (meta (posts ! i))))
          (map url (filter (\<lambda>a. rule_A a (posts ! i) \<or> rule_B a (posts ! i)) images)))) \<and>
   (parseFilePromise env config data = Inr result \<longrightarrow>
      (\<forall>q \<in> set result. distinct (imageUrls (meta q))))"
proof (intro conjI impI)
  assume a: "i < length posts \<and> distinct (imageUrls (meta (posts ! i)))"
  let ?p = "posts ! i"
  have e: "imageUrls (meta (mergeImagesIntoPosts images posts ! i))
      = foldl set_add (imageUrls (meta ?p))
          (map url (filter (\<lambda>a. rule_A a ?p \<or> rule_B a ?p) images))"
    using a by (simp add: mergeImagesIntoPosts_map merge_all_imageUrls)
  show "distinct (imageUrls (meta (mergeImagesIntoPosts images posts ! i)))"
    unfolding e using a by (simp add: distinct_foldl_set_add)
  show "imageUrls (meta (mergeImagesIntoPosts images posts ! i)) =
        imageUrls (meta ?p) @
        first_seen (filter (\<lambda>u. u \<notin> set (imageUrls (meta ?p)))
          (map url (filter (\<lambda>a. rule_A a ?p \<or> rule_B a ?p) images)))"
    using e by (simp add: foldl_set_add)
next
  assume a: "parseFilePromise env config data = Inr result"
  show "\<forall>q \<in> set result. distinct (imageUrls (meta q))"
  proof
    fix q
    assume q: "q \<in> set result"
    from a obtain postTypes' posts' images' where
      c: "collectPosts env data postTypes' config = Inr posts'"
      and r: "result = mergeImagesIntoPosts images' posts'"
      by (auto elim!: parseFilePromise_Inr)
    from q r obtain q0 where q0: "q0 \<in> set posts'" and qq: "q = merge_all images' q0"
      by (auto simp: mergeImagesIntoPosts_map)
    from collectPosts_fresh [OF c] q0 have "imageUrls (meta q0) = []" by auto
    with qq show "distinct (imageUrls (meta q))"
      by (simp add: merge_all_imageUrls distinct_foldl_set_add)
  qed
qed

text \<open>Witness for C5: the cover image 6 is attached to post 10 (both rules hold) and is
  found once more in the body of the post, and its URL is listed once; and the run on
  the post 8 of the examples.\<close>

theorem mergeImagesIntoPosts_no_duplicates_witness:
  "(0::nat) < length [example_post] \<and> distinct (imageUrls (meta ([example_post] ! 0))) \<and>
   imageUrls (meta (mergeImagesIntoPosts
       [\<lparr>asset_id = JStr ''6'', postId = ''10'', url = ''http://ex.com/b.gif''\<rparr>,
        \<lparr>asset_id = JNum (- 1), postId = ''10'', url = ''http://ex.com/b.gif''\<rparr>]
       [example_post] ! 0)) = [''http://ex.com/b.gif''] \<and>
   parseFilePromise (example_env example_service) example_config [example_item ''post'' ''8''] =
     Inr [(example_collected ''post'' ''8'')
            \<lparr>meta := (meta (example_collected ''post'' ''8''))
               \<lparr>imageUrls := [''https://site.test/post/img/x.jpg'']\<rparr>\<rparr>] \<and>
   distinct (imageUrls (meta ((example_collected ''post'' ''8'')
            \<lparr>meta := (meta (example_collected ''post'' ''8''))
               \<lparr>imageUrls := [''https://site.test/post/img/x.jpg'']\<rparr>\<rparr>)))"
proof -
  let ?images = "[\<lparr>asset_id = JStr ''6'', postId = ''10'', url = ''http://ex.com/b.gif''\<rparr>,
        \<lparr>asset_id = JNum (- 1), postId = ''10'', url = ''http://ex.com/b.gif''\<rparr>]"
  let ?q = "example_collected ''post'' ''8''"
  let ?r = "?q\<lparr>meta := (meta ?q)\<lparr>imageUrls := [''https://site.test/post/img/x.jpg'']\<rparr>\<rparr>"
  have l: "(0::nat) < length [example_post]" by simp
  have d: "distinct (imageUrls (meta ([example_post] ! 0)))"
    by (simp add: example_post_def)
  have p: "parseFilePromise (example_env example_service) example_config
      [example_item ''post'' ''8''] = Inr [?r]"
    by (rule example_parse) (simp add: example_config_def)
  note t = mergeImagesIntoPosts_no_duplicates [of 0 "[example_post]" ?images
      "example_env example_service" example_config "[example_item ''post'' ''8'']" "[?r]"]
  from t l d have "imageUrls (meta (mergeImagesIntoPosts ?images [example_post] ! 0)) =
           imageUrls (meta ([example_post] ! 0)) @
           first_seen (filter (\<lambda>u. u \<notin> set (imageUrls (meta ([example_post] ! 0))))
             (map url (filter (\<lambda>a. rule_A a ([example_post] ! 0) \<or>
                 rule_B a ([example_post] ! 0)) ?images)))"
    by blast
  also have "\<dots> = [''http://ex.com/b.gif'']"
    by (simp add: example_post_def rule_A_def rule_B_def)
  finally have a: "imageUrls (meta (mergeImagesIntoPosts ?images [example_post] ! 0))
      = [''http://ex.com/b.gif'']" .
  from t p have b: "distinct (imageUrls (meta ?r))" by simp
  from l d a p b show ?thesis by blast
qed

end
